theory Spec2Isabelle
  imports Main
begin

section \<open>blogger\_to\_hugo: a shallow embedding of \<open>blogger_to_hugo.py\<close>\<close>

text \<open>
  The script converts a Blogger Atom export into one folder per post. This theory embeds
  the functions of \<open>src/blogger_to_hugo.py\<close> as HOL functions:
  \<^item> Python \<open>str\<close> is \<open>string\<close>; the text handled here (URLs, attribute values, dates)
    is taken to be ASCII, so \<open>\d\<close> of the regular expression is \<open>0..9\<close>;
  \<^item> an attribute dictionary (\<open>img.attrs\<close>, \<open>c.attrib\<close>) is a map \<open>string \<rightharpoonup> string\<close>;
  \<^item> an exception is a value of the type \<open>error\<close>; a function that touches the file
    system returns its outcome together with the file system it leaves behind, also
    when it raises (the script never cleans up);
  \<^item> the BeautifulSoup document is an object store (ids to nodes with parent pointers),
    because the image loop mutates the document while it walks a list of elements it
    collected beforehand;
  \<^item> the third-party calls (\<open>requests.get\<close>, \<open>urlparse\<close>, \<open>slugify\<close>, \<open>dateutil.parse\<close>,
    \<open>BeautifulSoup(...)\<close>, \<open>pypandoc.convert_text\<close>, \<open>yaml.dump\<close>) are the fields of a
    record \<open>library\<close> that every function takes as its first argument. Only the HTTP
    fetch is modelled as a call that can raise; the others are taken to return.
\<close>

subsection \<open>Errors\<close>

datatype error =
    Exception string
  | KeyError string
  | AttributeError string
  | ValueError string
  | FileExistsError string
  | FileNotFoundError string
  | IsADirectoryError string
  | NotADirectoryError string
  | RequestException string

subsection \<open>Strings\<close>

type_synonym bytes = string

definition nl :: string where
  "nl = [CHR 0x0A]"

definition digit_chars :: string where
  "digit_chars = ''0123456789''"

definition isdigit :: "char \<Rightarrow> bool" where
  "isdigit c = (c \<in> set digit_chars)"

text \<open>\<open>str(n)\<close> of a non-negative integer.\<close>

fun str_nat :: "nat \<Rightarrow> string" where
  "str_nat n =
     (if n < 10 then [digit_chars ! n]
      else str_nat (n div 10) @ [digit_chars ! (n mod 10)])"

declare str_nat.simps [simp del]

text \<open>\<open>'{:0w}'.format(n)\<close> of a non-negative integer: zero padding up to width \<open>w\<close>.\<close>

definition format_zero_pad :: "nat \<Rightarrow> nat \<Rightarrow> string" where
  "format_zero_pad w n = replicate (w - length (str_nat n)) CHR ''0'' @ str_nat n"

text \<open>\<open>s.split(sep)\<close> for a one-character separator: never the empty list.\<close>

primrec split_on :: "char \<Rightarrow> string \<Rightarrow> string list" where
  "split_on sep [] = [[]]"
| "split_on sep (c # cs) =
     (let r = split_on sep cs in if c = sep then [] # r else (c # hd r) # tl r)"

text \<open>\<open>sep.join(xs)\<close>.\<close>

fun str_join :: "string \<Rightarrow> string list \<Rightarrow> string" where
  "str_join sep [] = []"
| "str_join sep [x] = x"
| "str_join sep (x # y # ys) = x @ sep @ str_join sep (y # ys)"

text \<open>
  \<open>s.replace(old, new)\<close>: the occurrences of \<open>old\<close> are replaced from the left and do
  not overlap; an empty \<open>old\<close> matches before every character and at the end.
\<close>

function str_replace :: "string \<Rightarrow> string \<Rightarrow> string \<Rightarrow> string" where
  "str_replace old new s =
     (if old = [] then new @ concat (map (\<lambda>c. c # new) s)
      else if s = [] then []
      else if take (length old) s = old then new @ str_replace old new (drop (length old) s)
      else hd s # str_replace old new (tl s))"
  by pat_completeness auto
termination
  by (relation "measure (\<lambda>(old, new, s). length s)") auto

declare str_replace.simps [simp del]

text \<open>
  \<open>re.sub(r'/(s\d+)-h/', r'/\1/', href)\<close>. \<open>match_size_h s\<close> is the match of the pattern
  at the start of \<open>s\<close>: the digits of group 1 and the text after the match. The digits
  are matched greedily, and giving one back can never help (the next character would be a
  digit, not \<open>-\<close>). \<open>re.sub\<close> replaces the matches from the left; they do not overlap.
\<close>

definition match_size_h :: "string \<Rightarrow> (string \<times> string) option" where
  "match_size_h s =
     (let ds = takeWhile isdigit (drop 2 s); r = dropWhile isdigit (drop 2 s)
      in if take 2 s = ''/s'' \<and> ds \<noteq> [] \<and> take 3 r = ''-h/''
         then Some (ds, drop 3 r) else None)"

function re_sub_size_h :: "string \<Rightarrow> string" where
  "re_sub_size_h s =
     (if s = [] then []
      else case match_size_h s of
             Some (ds, r) \<Rightarrow> ''/s'' @ ds @ ''/'' @ re_sub_size_h r
           | None \<Rightarrow> hd s # re_sub_size_h (tl s))"
  by pat_completeness auto
termination
proof (relation "measure length")
  show "wf (measure length)" by simp
next
  fix s :: string and x2 x y
  assume "s \<noteq> []" "match_size_h s = Some x2" "(x, y) = x2"
  then have "y = drop 3 (dropWhile isdigit (drop 2 s))"
    by (auto simp: match_size_h_def Let_def split: if_splits)
  moreover have "length (dropWhile isdigit (drop 2 s)) \<le> length s"
    by (metis length_dropWhile_le length_drop diff_le_self le_trans)
  moreover obtain c cs where "s = c # cs"
    using \<open>s \<noteq> []\<close> by (cases s) auto
  ultimately have "length y < length s"
    by (simp del: drop_Suc_Cons)
  then show "(y, s) \<in> measure length"
    by simp
next
  fix s :: string
  assume "s \<noteq> []" "match_size_h s = None"
  then show "(tl s, s) \<in> measure length" by (cases s) auto
qed

declare re_sub_size_h.simps [simp del]

text \<open>\<open>s.strip()\<close>: white space is removed at both ends (the ASCII white space of \<open>str.isspace\<close>).\<close>

definition isspace :: "char \<Rightarrow> bool" where
  "isspace c = (c \<in> set [CHR 0x20, CHR 0x09, CHR 0x0A, CHR 0x0B, CHR 0x0C, CHR 0x0D,
                          CHR 0x1C, CHR 0x1D, CHR 0x1E, CHR 0x1F])"

definition strip :: "string \<Rightarrow> string" where
  "strip s = rev (dropWhile isspace (rev (dropWhile isspace s)))"

text \<open>\<open>s.rfind(c)\<close>: the index of the last \<open>c\<close>, or \<open>-1\<close>.\<close>

definition rfind :: "string \<Rightarrow> char \<Rightarrow> int" where
  "rfind s c =
     (if c \<in> set s then int (length s) - 1 - int (length (takeWhile (\<lambda>x. x \<noteq> c) (rev s)))
      else - 1)"

subsection \<open>\<open>pathlib\<close>: pure POSIX paths\<close>

text \<open>
  \<open>Path(s)\<close> on a POSIX system. A path is its root (\<open>''\<close>, \<open>/\<close> or \<open>//\<close>) and its
  components; empty components and \<open>.\<close> are dropped when a string is parsed, \<open>..\<close> is
  kept. \<open>joinpath p s\<close> is \<open>p / s\<close>: an absolute right operand replaces the left one
  (the comment at line 137 of the source). \<open>path_stem\<close> follows \<open>PurePath.stem\<close> of
  Python 3.6 to 3.13: the name up to its last dot, unless that dot is the first or the
  last character.
\<close>

datatype pure_path = PurePath (path_root: string) (path_parts: "string list")

definition splitroot :: "string \<Rightarrow> string \<times> string" where
  "splitroot part =
     (if part \<noteq> [] \<and> hd part = CHR ''/'' then
        (let stripped_part = dropWhile (\<lambda>c. c = CHR ''/'') part
         in if length part - length stripped_part = 2 then (''//'', stripped_part)
            else (''/'', stripped_part))
      else ('''', part))"

definition Path :: "string \<Rightarrow> pure_path" where
  "Path s =
     (case splitroot s of
        (r, rel) \<Rightarrow> PurePath r (filter (\<lambda>x. x \<noteq> [] \<and> x \<noteq> ''.'') (split_on CHR ''/'' rel)))"

definition joinpath :: "pure_path \<Rightarrow> string \<Rightarrow> pure_path" where
  "joinpath p s =
     (let q = Path s
      in if path_root q \<noteq> [] then q else PurePath (path_root p) (path_parts p @ path_parts q))"

definition path_name :: "pure_path \<Rightarrow> string" where
  "path_name p = (if path_parts p = [] then [] else last (path_parts p))"

definition path_parent :: "pure_path \<Rightarrow> pure_path" where
  "path_parent p =
     (if path_parts p = [] then p else PurePath (path_root p) (butlast (path_parts p)))"

definition path_stem :: "pure_path \<Rightarrow> string" where
  "path_stem p =
     (let name = path_name p; i = rfind name CHR ''.''
      in if 0 < i \<and> i < int (length name) - 1 then take (nat i) name else name)"

definition path_str :: "pure_path \<Rightarrow> string" where
  "path_str p =
     (if path_root p = [] \<and> path_parts p = [] then ''.''
      else path_root p @ str_join ''/'' (path_parts p))"

subsection \<open>The file system\<close>

text \<open>
  The file system is the set of its directories and a map from its regular files to their
  bytes, both keyed by normalised paths: the model has no symbolic links, so \<open>..\<close> is
  resolved lexically (\<open>normpath\<close>, as \<open>os.path.normpath\<close>). The root, the current
  directory and its ancestors (a relative path that is empty or only \<open>..\<close>) always
  exist. Permissions, disk space and encodings are not modelled.
\<close>

definition step_dotdot :: "bool \<Rightarrow> string list \<Rightarrow> string \<Rightarrow> string list" where
  "step_dotdot absolute acc x =
     (if x = ''..'' then
        (if acc = [] then (if absolute then [] else [''..''])
         else if last acc = ''..'' then acc @ [''..'']
         else butlast acc)
      else acc @ [x])"

definition normpath :: "pure_path \<Rightarrow> pure_path" where
  "normpath p = PurePath (path_root p) (foldl (step_dotdot (path_root p \<noteq> [])) [] (path_parts p))"

record filesystem =
  dirs :: "pure_path set"
  files :: "pure_path \<rightharpoonup> bytes"

definition is_dir :: "filesystem \<Rightarrow> pure_path \<Rightarrow> bool" where
  "is_dir fs p =
     (let q = normpath p in list_all (\<lambda>x. x = ''..'') (path_parts q) \<or> q \<in> dirs fs)"

definition is_file :: "filesystem \<Rightarrow> pure_path \<Rightarrow> bool" where
  "is_file fs p = (\<not> is_dir fs p \<and> files fs (normpath p) \<noteq> None)"

definition path_exists :: "filesystem \<Rightarrow> pure_path \<Rightarrow> bool" where
  "path_exists fs p = (is_dir fs p \<or> is_file fs p)"

text \<open>The proper ancestors of a normalised path, from the top down.\<close>

definition ancestors :: "pure_path \<Rightarrow> pure_path list" where
  "ancestors q = map (\<lambda>k. PurePath (path_root q) (take k (path_parts q))) [0..<length (path_parts q)]"

text \<open>
  \<open>p.mkdir(parents=True)\<close>: \<open>FileExistsError\<close> when \<open>p\<close> exists (\<open>exist_ok\<close> is not
  set); otherwise \<open>p\<close> and its missing ancestors are created, unless an ancestor is a
  regular file.
\<close>

definition mkdir_parents :: "pure_path \<Rightarrow> filesystem \<Rightarrow> error + filesystem" where
  "mkdir_parents p fs =
     (if path_exists fs p then Inl (FileExistsError (path_str p))
      else if list_ex (is_file fs) (ancestors (normpath p)) then Inl (NotADirectoryError (path_str p))
      else Inr (fs\<lparr>dirs := dirs fs \<union> insert (normpath p) (set (ancestors (normpath p)))\<rparr>))"

text \<open>
  \<open>io.open(p, 'wb')\<close> followed by \<open>f.write(data)\<close>, and \<open>p.write_text(data)\<close>: the file
  is created or truncated, then written. Opening a directory, or a path whose parent is
  not a directory, raises. There is no check that the file is new.
\<close>

definition open_write :: "pure_path \<Rightarrow> bytes \<Rightarrow> filesystem \<Rightarrow> (error + unit) \<times> filesystem" where
  "open_write p data fs =
     (if is_dir fs p then (Inl (IsADirectoryError (path_str p)), fs)
      else if is_file fs (path_parent (normpath p)) then (Inl (NotADirectoryError (path_str p)), fs)
      else if \<not> is_dir fs (path_parent (normpath p)) then (Inl (FileNotFoundError (path_str p)), fs)
      else (Inr (), fs\<lparr>files := (files fs)(normpath p \<mapsto> data)\<rparr>))"

subsection \<open>The BeautifulSoup document\<close>

text \<open>
  A node is a tag (name, attribute dictionary, parent, contents) or a string; the
  \<open>BeautifulSoup\<close> object is itself a tag, named \<open>[document]\<close>. Nodes are objects:
  \<open>nodes\<close> maps an object id to its node, \<open>document\<close> is the id of the root and
  \<open>next_id\<close> the id the next new object gets.
\<close>

datatype pagenode =
    Tag (name: string) (attrs: "string \<rightharpoonup> string") (parent: "nat option") (contents: "nat list")
  | NavigableString (string_of: string) (parent: "nat option")

record soup =
  nodes :: "nat \<rightharpoonup> pagenode"
  document :: nat
  next_id :: nat

text \<open>
  The descendants of a node in document order. The first argument bounds the depth of the
  walk; \<open>find_all\<close> starts it with \<open>next_id\<close>, which is more than the depth of any
  document whose ids are below \<open>next_id\<close>.
\<close>

fun descendants :: "nat \<Rightarrow> (nat \<rightharpoonup> pagenode) \<Rightarrow> nat \<Rightarrow> nat list" where
  "descendants 0 ns i = []"
| "descendants (Suc k) ns i =
     (case ns i of
        Some (Tag _ _ _ cs) \<Rightarrow> concat (map (\<lambda>c. c # descendants k ns c) cs)
      | _ \<Rightarrow> [])"

definition is_tag_named :: "soup \<Rightarrow> string \<Rightarrow> nat \<Rightarrow> bool" where
  "is_tag_named html nm i = (case nodes html i of Some (Tag n _ _ _) \<Rightarrow> n = nm | _ \<Rightarrow> False)"

text \<open>\<open>html.find_all(nm)\<close>: the list is built before the loop over it starts.\<close>

definition find_all :: "soup \<Rightarrow> string \<Rightarrow> nat list" where
  "find_all html nm =
     filter (is_tag_named html nm) (descendants (next_id html) (nodes html) (document html))"

text \<open>\<open>el.find_parent()\<close> with no filter: the parent of the element, or \<open>None\<close>.\<close>

definition find_parent :: "soup \<Rightarrow> nat \<Rightarrow> nat option" where
  "find_parent html i = (case nodes html i of Some n \<Rightarrow> parent n | None \<Rightarrow> None)"

text \<open>\<open>html.new_tag(nm, **attrs)\<close>: a new tag that is not part of the tree.\<close>

definition new_tag :: "string \<Rightarrow> (string \<rightharpoonup> string) \<Rightarrow> soup \<Rightarrow> nat \<times> soup" where
  "new_tag nm at html =
     (next_id html,
      html\<lparr>nodes := (nodes html)(next_id html \<mapsto> Tag nm at None []), next_id := Suc (next_id html)\<rparr>)"

definition set_parent :: "nat option \<Rightarrow> pagenode \<Rightarrow> pagenode" where
  "set_parent p n =
     (case n of Tag nm at _ cs \<Rightarrow> Tag nm at p cs | NavigableString t _ \<Rightarrow> NavigableString t p)"

text \<open>
  \<open>target.replace_with(new)\<close> of bs4: a target with no parent raises \<open>ValueError\<close>;
  otherwise the target is taken out of its parent's contents (\<open>Tag.index\<close> finds it by
  identity), loses its parent, and the new element takes its place. The contents of the
  target itself are untouched: they keep the target as their parent.
\<close>

definition replace_with :: "nat \<Rightarrow> nat \<Rightarrow> soup \<Rightarrow> error + soup" where
  "replace_with target new html =
     (case (nodes html target, nodes html new) of
        (Some t, Some n) \<Rightarrow>
          (case parent t of
             None \<Rightarrow> Inl (ValueError ''Cannot replace one element with another when the element to be replaced is not part of a tree.'')
           | Some p \<Rightarrow>
               (case nodes html p of
                  Some (Tag pn pa pp cs) \<Rightarrow>
                    (let my_index = length (takeWhile (\<lambda>c. c \<noteq> target) cs)
                     in if my_index = length cs then Inl (ValueError ''Tag.index: element not in tag'')
                        else Inr (html\<lparr>nodes := (nodes html)
                               (p \<mapsto> Tag pn pa pp (cs[my_index := new]),
                                target \<mapsto> set_parent None t,
                                new \<mapsto> set_parent (Some p) n)\<rparr>))
                | _ \<Rightarrow> Inl (AttributeError ''contents'')))
      | _ \<Rightarrow> Inl (AttributeError ''replace_with''))"

subsection \<open>The libraries\<close>

record response =
  status_code :: nat
  content :: bytes

record datetime =
  year :: nat
  month :: nat
  day :: nat

text \<open>The mapping that is handed to \<open>yaml.dump\<close>; the key \<open>aliases\<close> may be absent.\<close>

record metadata =
  md_title :: string
  md_slug :: string
  md_published :: string
  md_author :: string
  md_tags :: "string list"
  md_aliases :: "string list option"

text \<open>
  \<open>requests_get url\<close> is \<open>requests.get(url)\<close>: the response, or the exception the call
  raises (no connection, no scheme in the URL). \<open>urlparse_path url\<close> is
  \<open>urlparse(url).path\<close>, \<open>slugify t\<close> is \<open>slugify(t, to_lower=True)\<close>, \<open>parse\<close> is
  \<open>dateutil.parser.parse\<close>, \<open>bs c\<close> is \<open>BeautifulSoup(c, 'html.parser')\<close>,
  \<open>convert_text html\<close> is \<open>pypandoc.convert_text(html, 'markdown_strict', format='html')\<close>
  and \<open>yaml_dump d\<close> is \<open>yaml.dump(d, default_flow_style=False)\<close>.
\<close>

record library =
  requests_get :: "string \<Rightarrow> error + response"
  urlparse_path :: "string \<Rightarrow> string"
  slugify :: "string \<Rightarrow> string"
  parse :: "string \<Rightarrow> datetime"
  bs :: "string \<Rightarrow> soup"
  convert_text :: "soup \<Rightarrow> string"
  yaml_dump :: "metadata \<Rightarrow> string"

subsection \<open>The image localizer\<close>

text \<open>\<open>download_and_save_image\<close> (lines 35 to 42).\<close>

definition download_and_save_image ::
  "library \<Rightarrow> string \<Rightarrow> pure_path \<Rightarrow> filesystem \<Rightarrow> (error + unit) \<times> filesystem" where
  "download_and_save_image lib image_src fullimg_path fs =
     (case requests_get lib image_src of
        Inl e \<Rightarrow> (Inl e, fs)
      | Inr response \<Rightarrow>
          if status_code response \<noteq> 200
          then (Inl (Exception (''Can'' @ [CHR 0x27] @ ''t download image '' @ image_src
                                @ '' ; Status code '' @ str_nat (status_code response))), fs)
          else open_write fullimg_path (content response) fs)"

text \<open>\<open>get_src_resize_if_needed\<close> (lines 56 to 71) and its local function.\<close>

definition resize_if_needed ::
  "(string \<rightharpoonup> string) \<Rightarrow> string \<Rightarrow> string \<Rightarrow> string \<Rightarrow> string" where
  "resize_if_needed img_attrs src size_name orig_size_name =
     (case (img_attrs size_name, img_attrs orig_size_name) of
        (Some size', Some orig_size) \<Rightarrow>
          str_replace (''/s'' @ size' @ ''/'') (''/s'' @ orig_size @ ''/'') src
      | _ \<Rightarrow> src)"

definition get_src_resize_if_needed :: "(string \<rightharpoonup> string) \<Rightarrow> error + string" where
  "get_src_resize_if_needed img_attrs =
     (case img_attrs ''src'' of
        None \<Rightarrow> Inl (KeyError ''src'')
      | Some src \<Rightarrow>
          Inr (resize_if_needed img_attrs
                 (resize_if_needed img_attrs src ''height'' ''data-original-height'')
                 ''width'' ''data-original-width''))"

text \<open>\<open>has_identical_extension\<close> (lines 74 and 75): the texts after the last dot.\<close>

definition has_identical_extension :: "string \<Rightarrow> string \<Rightarrow> bool" where
  "has_identical_extension a b = (last (split_on CHR ''.'' a) = last (split_on CHR ''.'' b))"

text \<open>
  Lines 83 to 90 of \<open>replace_images_with_downloaded\<close>: the element to replace and the
  URL to fetch. \<open>parent['href']\<close> is only evaluated when the parent is an \<open>a\<close>, and
  raises \<open>KeyError\<close> when the attribute is missing.
\<close>

definition select_target :: "soup \<Rightarrow> nat \<Rightarrow> string \<Rightarrow> error + nat \<times> string" where
  "select_target html img href =
     (case find_parent html img of
        None \<Rightarrow> Inl (AttributeError ''name'')
      | Some p \<Rightarrow>
          (case nodes html p of
             Some (Tag pname pattrs _ _) \<Rightarrow>
               if pname = ''a'' then
                 (case pattrs ''href'' of
                    None \<Rightarrow> Inl (KeyError ''href'')
                  | Some phref \<Rightarrow>
                      if has_identical_extension href phref then Inr (p, phref)
                      else Inr (img, href))
               else Inr (img, href)
           | _ \<Rightarrow> Inl (AttributeError ''name'')))"

text \<open>The body of the loop of \<open>replace_images_with_downloaded\<close> (lines 80 to 99) for one \<open>img\<close>.\<close>

definition replace_image ::
  "library \<Rightarrow> pure_path \<Rightarrow> nat \<Rightarrow> soup \<Rightarrow> filesystem \<Rightarrow> (error + soup) \<times> filesystem" where
  "replace_image lib folder img html fs =
     (case nodes html img of
        Some (Tag _ img_attrs _ _) \<Rightarrow>
          if img_attrs ''src'' = None then (Inr html, fs)
          else
            (case get_src_resize_if_needed img_attrs of
               Inl e \<Rightarrow> (Inl e, fs)
             | Inr href \<Rightarrow>
                 (case select_target html img href of
                    Inl e \<Rightarrow> (Inl e, fs)
                  | Inr (target_tag, href1) \<Rightarrow>
                      (let href2 = re_sub_size_h href1;
                           name = path_name (Path (urlparse_path lib href2))
                       in case download_and_save_image lib href2 (joinpath folder name) fs of
                            (Inl e, fs') \<Rightarrow> (Inl e, fs')
                          | (Inr _, fs') \<Rightarrow>
                              (case new_tag ''img'' [''src'' \<mapsto> name] html of
                                 (new_img, html1) \<Rightarrow> (replace_with target_tag new_img html1, fs')))))
      | _ \<Rightarrow> (Inl (AttributeError ''attrs''), fs))"

text \<open>The loop over the list that \<open>find_all\<close> returned: the first exception ends it.\<close>

fun replace_images ::
  "library \<Rightarrow> pure_path \<Rightarrow> nat list \<Rightarrow> soup \<Rightarrow> filesystem \<Rightarrow> (error + soup) \<times> filesystem" where
  "replace_images lib folder [] html fs = (Inr html, fs)"
| "replace_images lib folder (img # imgs) html fs =
     (case replace_image lib folder img html fs of
        (Inl e, fs') \<Rightarrow> (Inl e, fs')
      | (Inr html', fs') \<Rightarrow> replace_images lib folder imgs html' fs')"

text \<open>\<open>replace_images_with_downloaded\<close> (lines 78 to 101).\<close>

definition replace_images_with_downloaded ::
  "library \<Rightarrow> soup \<Rightarrow> pure_path \<Rightarrow> filesystem \<Rightarrow> (error + soup) \<times> filesystem" where
  "replace_images_with_downloaded lib html folder fs =
     replace_images lib folder (find_all html ''img'') html fs"

subsection \<open>Post entries\<close>

text \<open>
  An \<open>entry\<close> element of the export, as the script reads it: the text of its title,
  published date, content and author name, and the attribute dictionaries of its
  \<open>link\<close> and \<open>category\<close> children, in document order. The four elements are taken
  to be present and to have text (the script reads \<open>.text\<close> of each without a check).
\<close>

record entry =
  atom_title :: string
  atom_link :: "(string \<rightharpoonup> string) list"
  atom_published :: string
  atom_content :: string
  atom_author_name :: string
  atom_category :: "(string \<rightharpoonup> string) list"

record options =
  output_folder :: string
  new_root :: string
  front_alias :: bool
  num_posts :: "int option"

definition CATEGORY_KIND :: string where
  "CATEGORY_KIND = ''http://schemas.google.com/g/2005#kind''"

definition CATEGORY_TAG :: string where
  "CATEGORY_TAG = ''http://www.blogger.com/atom/ns#''"

definition TERM_POST :: string where
  "TERM_POST = ''http://schemas.google.com/blogger/2008/kind#post''"

text \<open>
  \<open>get_post_entries\<close> (lines 45 to 53). \<open>is_post_entry\<close> is its inner loop over the
  categories of one entry; \<open>c.attrib['term']\<close> is only read when the scheme is the kind
  scheme.
\<close>

fun is_post_entry :: "(string \<rightharpoonup> string) list \<Rightarrow> error + bool" where
  "is_post_entry [] = Inr False"
| "is_post_entry (c # cs) =
     (case c ''scheme'' of
        None \<Rightarrow> Inl (KeyError ''scheme'')
      | Some sch \<Rightarrow>
          if sch = CATEGORY_KIND then
            (case c ''term'' of
               None \<Rightarrow> Inl (KeyError ''term'')
             | Some t \<Rightarrow> if t = TERM_POST then Inr True else is_post_entry cs)
          else is_post_entry cs)"

fun get_post_entries :: "entry list \<Rightarrow> error + entry list" where
  "get_post_entries [] = Inr []"
| "get_post_entries (e # es) =
     (case is_post_entry (atom_category e) of
        Inl x \<Rightarrow> Inl x
      | Inr b \<Rightarrow>
          (case get_post_entries es of
             Inl x \<Rightarrow> Inl x
           | Inr result \<Rightarrow> Inr (if b then e # result else result)))"

text \<open>\<open>get_post_tags\<close> (lines 104 to 109).\<close>

fun get_post_tags :: "(string \<rightharpoonup> string) list \<Rightarrow> error + string list" where
  "get_post_tags [] = Inr []"
| "get_post_tags (c # cs) =
     (case c ''scheme'' of
        None \<Rightarrow> Inl (KeyError ''scheme'')
      | Some sch \<Rightarrow>
          if sch = CATEGORY_TAG then
            (case c ''term'' of
               None \<Rightarrow> Inl (KeyError ''term'')
             | Some t \<Rightarrow>
                 (case get_post_tags cs of Inl x \<Rightarrow> Inl x | Inr result \<Rightarrow> Inr (t # result)))
          else get_post_tags cs)"

subsection \<open>The post resolver and converter\<close>

text \<open>
  Lines 120 to 122 of \<open>process_post\<close>: the \<open>href\<close> of the first link whose \<open>rel\<close> is
  \<open>alternate\<close>. \<open>e.get('href')\<close> is \<open>None\<close> when that link has no \<open>href\<close>, which is also
  the default when there is no such link.
\<close>

definition published_url :: "entry \<Rightarrow> string option" where
  "published_url post =
     (case filter (\<lambda>e. e ''rel'' = Some ''alternate'') (atom_link post) of
        [] \<Rightarrow> None
      | e # _ \<Rightarrow> e ''href'')"

text \<open>The test \<open>not published_url\<close> of line 131: \<open>None\<close> and the empty string are false.\<close>

definition is_draft :: "entry \<Rightarrow> bool" where
  "is_draft post = (case published_url post of None \<Rightarrow> True | Some u \<Rightarrow> u = [])"

text \<open>Lines 127 to 129.\<close>

definition published_date :: "datetime \<Rightarrow> string" where
  "published_date published =
     format_zero_pad 4 (year published) @ ''-'' @ format_zero_pad 2 (month published)
       @ ''-'' @ format_zero_pad 2 (day published)"

text \<open>
  Lines 117 to 143 of \<open>process_post\<close>, up to the creation of the folder: the slug, the
  destination folder, the aliases, and the URL map as line 143 leaves it. The branch
  \<open>if not published_url\<close> is taken for \<open>None\<close> and for the empty string.
\<close>

record resolved_post =
  slug :: string
  post_folder :: pure_path
  aliases :: "string list"
  url_map_out :: "(string \<times> string) list"

definition resolve_post ::
  "library \<Rightarrow> options \<Rightarrow> entry \<Rightarrow> (string \<times> string) list \<Rightarrow> resolved_post" where
  "resolve_post lib opts post url_map =
     (let title = atom_title post;
          root_folder = Path (output_folder opts);
          published = parse lib (atom_published post);
          pdate = published_date published;
          draft =
            (let slug = slugify lib title
             in \<lparr>slug = slug,
                 post_folder = joinpath (joinpath root_folder ''draft_posts'') (pdate @ ''-'' @ slug),
                 aliases = [],
                 url_map_out = url_map\<rparr>)
      in case published_url post of
           None \<Rightarrow> draft
         | Some purl \<Rightarrow>
             if purl = [] then draft
             else
               (let p = Path (urlparse_path lib purl);
                    slug = path_stem p;
                    new_url = new_root opts @ path_str (path_parent p) @ ''/'' @ path_stem p
                in \<lparr>slug = slug,
                    post_folder =
                      joinpath (joinpath (joinpath root_folder ''post'')
                                  (format_zero_pad 4 (year published)))
                        (pdate @ ''-'' @ slug),
                    aliases = [path_str p],
                    url_map_out = url_map @ [(purl, new_url)]\<rparr>))"

text \<open>Lines 153 to 163: the dictionary for the front matter.\<close>

definition metadata_dict ::
  "options \<Rightarrow> string \<Rightarrow> resolved_post \<Rightarrow> string \<Rightarrow> string \<Rightarrow> string list \<Rightarrow> metadata" where
  "metadata_dict opts title r pdate author tags =
     \<lparr>md_title = title, md_slug = slug r, md_published = pdate, md_author = author,
      md_tags = tags,
      md_aliases = (if aliases r \<noteq> [] \<and> front_alias opts then Some (aliases r) else None)\<rparr>"

text \<open>
  \<open>process_post\<close> (lines 112 to 168). The result is the outcome, the file system and
  the URL map (a list the caller owns and the function appends to).
\<close>

definition process_post ::
  "library \<Rightarrow> options \<Rightarrow> entry \<Rightarrow> filesystem \<Rightarrow> (string \<times> string) list
     \<Rightarrow> (error + unit) \<times> filesystem \<times> (string \<times> string) list" where
  "process_post lib opts post fs url_map =
     (let r = resolve_post lib opts post url_map;
          pdate = published_date (parse lib (atom_published post))
      in case mkdir_parents (post_folder r) fs of
           Inl e \<Rightarrow> (Inl e, fs, url_map_out r)
         | Inr fs1 \<Rightarrow>
             (case get_post_tags (atom_category post) of
                Inl e \<Rightarrow> (Inl e, fs1, url_map_out r)
              | Inr tags \<Rightarrow>
                  (case replace_images_with_downloaded lib (bs lib (atom_content post))
                          (post_folder r) fs1 of
                     (Inl e, fs2) \<Rightarrow> (Inl e, fs2, url_map_out r)
                   | (Inr html, fs2) \<Rightarrow>
                       (let mkd = strip (convert_text lib html);
                            front_matter =
                              strip (yaml_dump lib
                                (metadata_dict opts (atom_title post) r pdate
                                   (atom_author_name post) tags))
                        in case open_write (joinpath (post_folder r) ''index.md'')
                                  (''---'' @ nl @ front_matter @ nl @ ''---'' @ nl @ mkd) fs2 of
                             (Inl e, fs3) \<Rightarrow> (Inl e, fs3, url_map_out r)
                           | (Inr _, fs3) \<Rightarrow> (Inr (), fs3, url_map_out r)))))"

subsection \<open>The driver\<close>

text \<open>The loop of lines 232 and 233: the first exception ends the run.\<close>

fun process_posts ::
  "library \<Rightarrow> options \<Rightarrow> entry list \<Rightarrow> filesystem \<Rightarrow> (string \<times> string) list
     \<Rightarrow> (error + unit) \<times> filesystem \<times> (string \<times> string) list" where
  "process_posts lib opts [] fs url_map = (Inr (), fs, url_map)"
| "process_posts lib opts (post # posts) fs url_map =
     (case process_post lib opts post fs url_map of
        (Inl e, fs', url_map') \<Rightarrow> (Inl e, fs', url_map')
      | (Inr _, fs', url_map') \<Rightarrow> process_posts lib opts posts fs' url_map')"

text \<open>\<open>posts[:n]\<close>: a negative \<open>n\<close> counts from the end.\<close>

definition slice_to :: "int \<Rightarrow> 'a list \<Rightarrow> 'a list" where
  "slice_to n xs = take (nat (if n < 0 then int (length xs) + n else n)) xs"

text \<open>
  \<open>main\<close> (lines 213 to 237) from the parsed export on: \<open>xml_root\<close> is the list of the
  \<open>entry\<close> children of the root element.
\<close>

definition main :: "library \<Rightarrow> options \<Rightarrow> entry list \<Rightarrow> filesystem \<Rightarrow> (error + unit) \<times> filesystem" where
  "main lib opts xml_root fs =
     (case get_post_entries xml_root of
        Inl e \<Rightarrow> (Inl e, fs)
      | Inr all_posts \<Rightarrow>
          (let posts = (case num_posts opts of None \<Rightarrow> all_posts | Some n \<Rightarrow> slice_to n all_posts)
           in case process_posts lib opts posts fs [] of
                (Inl e, fs', url_map) \<Rightarrow> (Inl e, fs')
              | (Inr _, fs', url_map) \<Rightarrow>
                  open_write (joinpath (Path (output_folder opts)) ''url_map.csv'')
                    (concat (map (\<lambda>(old, new). old @ '','' @ new @ '','' @ nl) url_map)) fs'))"


subsection \<open>A library instance and inputs for evaluation\<close>

text \<open>
  The theorems below hold for every \<open>library\<close>. To evaluate the functions on concrete
  inputs, \<open>demo_library\<close> is one instance: the web is a table from URLs to responses, the
  parsed document is given, and the other calls are simple stand-ins that agree with the
  real libraries on the inputs used here (\<open>http://host/path\<close> URLs, ISO dates, ASCII
  titles).
\<close>

definition demo_requests_get :: "(string \<times> response) list \<Rightarrow> string \<Rightarrow> error + response" where
  "demo_requests_get web url =
     (case map_of web url of Some r \<Rightarrow> Inr r | None \<Rightarrow> Inl (RequestException url))"

definition demo_urlparse_path :: "string \<Rightarrow> string" where
  "demo_urlparse_path url =
     (let u = takeWhile (\<lambda>c. c \<noteq> CHR ''#'' \<and> c \<noteq> CHR ''?'') url;
          scheme = takeWhile (\<lambda>c. c \<noteq> CHR '':'') u;
          rest = (if scheme \<noteq> [] \<and> length scheme < length u \<and> CHR ''/'' \<notin> set scheme
                  then drop (Suc (length scheme)) u else u)
      in if take 2 rest = ''//'' then dropWhile (\<lambda>c. c \<noteq> CHR ''/'') (drop 2 rest) else rest)"

definition demo_slugify :: "string \<Rightarrow> string" where
  "demo_slugify t =
     map (\<lambda>c. case map_of (zip ''ABCDEFGHIJKLMNOPQRSTUVWXYZ'' ''abcdefghijklmnopqrstuvwxyz'') c of
                 Some l \<Rightarrow> l
               | None \<Rightarrow> if c \<in> set ''abcdefghijklmnopqrstuvwxyz0123456789'' then c else CHR ''-'') t"

definition demo_int :: "string \<Rightarrow> nat" where
  "demo_int s = foldl (\<lambda>n c. 10 * n + length (takeWhile (\<lambda>d. d \<noteq> c) digit_chars)) 0 s"

definition demo_parse :: "string \<Rightarrow> datetime" where
  "demo_parse s =
     \<lparr>year = demo_int (take 4 s), month = demo_int (take 2 (drop 5 s)),
      day = demo_int (take 2 (drop 8 s))\<rparr>"

definition demo_yaml_dump :: "metadata \<Rightarrow> string" where
  "demo_yaml_dump d =
     ''author: '' @ md_author d @ nl @ ''published: '' @ md_published d @ nl
       @ ''slug: '' @ md_slug d @ nl @ ''title: '' @ md_title d @ nl"

definition demo_library :: "(string \<times> response) list \<Rightarrow> soup \<Rightarrow> library" where
  "demo_library web html =
     \<lparr>requests_get = demo_requests_get web, urlparse_path = demo_urlparse_path,
      slugify = demo_slugify, parse = demo_parse, bs = (\<lambda>c. html),
      convert_text = (\<lambda>h. ''body''), yaml_dump = demo_yaml_dump\<rparr>"

definition demo_options :: options where
  "demo_options = \<lparr>output_folder = ''out'', new_root = ''/blog'', front_alias = False, num_posts = None\<rparr>"

definition empty_soup :: soup where
  "empty_soup = \<lparr>nodes = [0 \<mapsto> Tag ''[document]'' Map.empty None []], document = 0, next_id = 1\<rparr>"

definition fs_out :: filesystem where
  "fs_out = \<lparr>dirs = {PurePath [] [''out'']}, files = Map.empty\<rparr>"

definition fs_empty :: filesystem where
  "fs_empty = \<lparr>dirs = {}, files = Map.empty\<rparr>"

text \<open>Two images of one post whose URLs end in the same file name: \<open>pic.png\<close>.\<close>

definition two_pics_web :: "(string \<times> response) list" where
  "two_pics_web =
     [(''http://a.example/x/pic.png'', \<lparr>status_code = 200, content = ''first''\<rparr>),
      (''http://b.example/y/pic.png'', \<lparr>status_code = 200, content = ''second''\<rparr>)]"

definition two_pics_soup :: soup where
  "two_pics_soup =
     \<lparr>nodes = [0 \<mapsto> Tag ''[document]'' Map.empty None [1, 2],
               1 \<mapsto> Tag ''img'' [''src'' \<mapsto> ''http://a.example/x/pic.png''] (Some 0) [],
               2 \<mapsto> Tag ''img'' [''src'' \<mapsto> ''http://b.example/y/pic.png''] (Some 0) []],
      document = 0, next_id = 3\<rparr>"

text \<open>One link around two thumbnails: \<open><a href=".../full.png"><img ...><img ...></a>\<close>.\<close>

definition link_web :: "(string \<times> response) list" where
  "link_web =
     [(''http://h.example/full.png'', \<lparr>status_code = 200, content = ''full''\<rparr>),
      (''http://h.example/t1.png'', \<lparr>status_code = 200, content = ''thumb1''\<rparr>),
      (''http://h.example/t2.png'', \<lparr>status_code = 200, content = ''thumb2''\<rparr>),
      (''http://h.example/gone.png'', \<lparr>status_code = 404, content = ''Not Found''\<rparr>),
      (''http://h.example/empty.png'', \<lparr>status_code = 204, content = []\<rparr>)]"

definition link_two_imgs_soup :: soup where
  "link_two_imgs_soup =
     \<lparr>nodes = [0 \<mapsto> Tag ''[document]'' Map.empty None [1],
               1 \<mapsto> Tag ''a'' [''href'' \<mapsto> ''http://h.example/full.png''] (Some 0) [2, 3],
               2 \<mapsto> Tag ''img'' [''src'' \<mapsto> ''http://h.example/t1.png''] (Some 1) [],
               3 \<mapsto> Tag ''img'' [''src'' \<mapsto> ''http://h.example/t2.png''] (Some 1) []],
      document = 0, next_id = 4\<rparr>"

text \<open>
  An image that is shown at height 320 and has an original of height 1600, and a document
  whose only image has no \<open>src\<close>.
\<close>

definition resized_img_attrs :: "string \<rightharpoonup> string" where
  "resized_img_attrs =
     [''src'' \<mapsto> ''http://x/s320/img.jpg'', ''height'' \<mapsto> ''320'',
      ''data-original-height'' \<mapsto> ''1600'']"

definition no_src_soup :: soup where
  "no_src_soup =
     \<lparr>nodes = [0 \<mapsto> Tag ''[document]'' Map.empty None [1],
               1 \<mapsto> Tag ''img'' [''alt'' \<mapsto> ''x''] (Some 0) []],
      document = 0, next_id = 2\<rparr>"

text \<open>
  An image whose URL goes through the HTML wrapper endpoint \<open>/s1600-h/\<close>, and the web
  that serves the direct URL.
\<close>

definition wrapper_web :: "(string \<times> response) list" where
  "wrapper_web = [(''http://x/s1600/img.jpg'', \<lparr>status_code = 200, content = ''jpeg''\<rparr>)]"

definition wrapper_soup :: soup where
  "wrapper_soup =
     \<lparr>nodes = [0 \<mapsto> Tag ''[document]'' Map.empty None [1],
               1 \<mapsto> Tag ''img'' [''src'' \<mapsto> ''http://x/s1600-h/img.jpg''] (Some 0) []],
      document = 0, next_id = 2\<rparr>"

text \<open>An anchor without \<open>href\<close> around an image: \<open><a name="top"><img src="http://x/a.png"></a>\<close>.\<close>

definition anchor_soup :: soup where
  "anchor_soup =
     \<lparr>nodes = [0 \<mapsto> Tag ''[document]'' Map.empty None [1],
               1 \<mapsto> Tag ''a'' [''name'' \<mapsto> ''top''] (Some 0) [2],
               2 \<mapsto> Tag ''img'' [''src'' \<mapsto> ''http://x/a.png''] (Some 1) []],
      document = 0, next_id = 3\<rparr>"

text \<open>
  The specification's ``success status'', read as HTTP defines it: the 2xx class. It is
  only used to compare the specification with \<open>download_and_save_image\<close>.
\<close>

definition spec_success_status :: "nat \<Rightarrow> bool" where
  "spec_success_status c = (200 \<le> c \<and> c < 300)"

text \<open>
  Posts. A draft (no link with \<open>rel="alternate"\<close>), a published post, and two posts whose
  first alternate link has no usable \<open>href\<close> (none at all, and the empty string). Their
  content has no image.
\<close>

definition demo_kind :: "string \<rightharpoonup> string" where
  "demo_kind = [''scheme'' \<mapsto> CATEGORY_KIND, ''term'' \<mapsto> TERM_POST]"

definition demo_tag :: "string \<rightharpoonup> string" where
  "demo_tag = [''scheme'' \<mapsto> CATEGORY_TAG, ''term'' \<mapsto> ''travel'']"

definition draft_post :: entry where
  "draft_post =
     \<lparr>atom_title = ''Hello World'',
      atom_link = [[''rel'' \<mapsto> ''self'', ''href'' \<mapsto> ''https://www.blogger.com/feeds/1/posts/default/2'']],
      atom_published = ''2019-03-07T10:00:00.000+01:00'',
      atom_content = [], atom_author_name = ''Ann'', atom_category = [demo_kind, demo_tag]\<rparr>"

definition published_post :: entry where
  "published_post =
     \<lparr>atom_title = ''My Post!'',
      atom_link = [[''rel'' \<mapsto> ''self'', ''href'' \<mapsto> ''https://www.blogger.com/feeds/1/posts/default/3''],
                   [''rel'' \<mapsto> ''alternate'', ''href'' \<mapsto> ''https://old.example/2019/03/my-post.html'']],
      atom_published = ''2019-03-09T08:30:00.000+01:00'',
      atom_content = [], atom_author_name = ''Ann'', atom_category = [demo_kind, demo_tag]\<rparr>"

definition alternate_without_href_post :: entry where
  "alternate_without_href_post = draft_post\<lparr>atom_link := [[''rel'' \<mapsto> ''alternate'']]\<rparr>"

definition alternate_empty_href_post :: entry where
  "alternate_empty_href_post =
     draft_post\<lparr>atom_link := [[''rel'' \<mapsto> ''alternate'', ''href'' \<mapsto> []]]\<rparr>"

section \<open>Properties\<close>

subsection \<open>String rewriting\<close>

lemma str_replace_here:
  "old \<noteq> [] \<Longrightarrow> str_replace old new (old @ post) = new @ str_replace old new post"
  by (subst str_replace.simps) simp

lemma str_replace_next:
  "old \<noteq> [] \<Longrightarrow> take (length old) (c # s) \<noteq> old \<Longrightarrow>
   str_replace old new (c # s) = c # str_replace old new s"
  by (subst str_replace.simps) simp

text \<open>The first occurrence of \<open>old\<close> is replaced, and the text before it is kept.\<close>

lemma str_replace_first:
  "old \<noteq> [] \<Longrightarrow> \<forall>k<length pre. take (length old) (drop k (pre @ old)) \<noteq> old \<Longrightarrow>
   str_replace old new (pre @ old @ post) = pre @ new @ str_replace old new post"
proof (induction pre)
  case Nil
  then show ?case by (simp add: str_replace_here)
next
  case (Cons c pre)
  from Cons.prems(2) have "take (length old) (drop 0 ((c # pre) @ old)) \<noteq> old"
    by blast
  then have "take (length old) (c # pre @ old @ post) \<noteq> old"
    by (simp add: take_Cons' split: if_splits)
  moreover have "\<forall>k<length pre. take (length old) (drop k (pre @ old)) \<noteq> old"
  proof (intro allI impI)
    fix k assume "k < length pre"
    then have "Suc k < length (c # pre)" by simp
    with Cons.prems(2) have "take (length old) (drop (Suc k) ((c # pre) @ old)) \<noteq> old"
      by blast
    then show "take (length old) (drop k (pre @ old)) \<noteq> old" by simp
  qed
  ultimately show ?case
    using Cons.IH Cons.prems(1) by (simp add: str_replace_next)
qed

lemma not_isdigit_minus: "\<not> isdigit CHR ''-''"
  by (simp add: isdigit_def digit_chars_def)

lemma match_size_h_here:
  assumes "ds \<noteq> []" "list_all isdigit ds"
  shows "match_size_h (''/s'' @ ds @ ''-h/'' @ r) = Some (ds, r)"
proof -
  have "takeWhile isdigit (ds @ ''-h/'' @ r) = ds"
    using assms(2) by (simp add: takeWhile_append2 list_all_iff not_isdigit_minus)
  moreover have "dropWhile isdigit (ds @ ''-h/'' @ r) = ''-h/'' @ r"
    using assms(2) by (simp add: dropWhile_append2 list_all_iff not_isdigit_minus)
  ultimately show ?thesis
    using assms(1) by (simp add: match_size_h_def)
qed

lemma re_sub_size_h_here:
  assumes "ds \<noteq> []" "list_all isdigit ds"
  shows "re_sub_size_h (''/s'' @ ds @ ''-h/'' @ r) = ''/s'' @ ds @ ''/'' @ re_sub_size_h r"
proof -
  have m: "match_size_h (''/s'' @ ds @ ''-h/'' @ r) = Some (ds, r)"
    using assms by (rule match_size_h_here)
  have ne: "(''/s'' @ ds @ ''-h/'' @ r = []) = False"
    by simp
  show ?thesis
    by (subst re_sub_size_h.simps) (simp only: m ne if_False option.case prod.case)
qed

lemma re_sub_size_h_next:
  "match_size_h (c # s) = None \<Longrightarrow> re_sub_size_h (c # s) = c # re_sub_size_h s"
  by (subst re_sub_size_h.simps) simp

text \<open>Text in which no match starts is copied.\<close>

lemma re_sub_size_h_skip:
  "\<forall>k<length pre. match_size_h (drop k (pre @ s)) = None \<Longrightarrow>
   re_sub_size_h (pre @ s) = pre @ re_sub_size_h s"
proof (induction pre)
  case Nil
  then show ?case by simp
next
  case (Cons c pre)
  from Cons.prems have "match_size_h (drop 0 ((c # pre) @ s)) = None" by blast
  then have h: "match_size_h (c # pre @ s) = None" by simp
  have "\<forall>k<length pre. match_size_h (drop k (pre @ s)) = None"
  proof (intro allI impI)
    fix k assume "k < length pre"
    then have "Suc k < length (c # pre)" by simp
    with Cons.prems have "match_size_h (drop (Suc k) ((c # pre) @ s)) = None" by blast
    then show "match_size_h (drop k (pre @ s)) = None" by simp
  qed
  with Cons.IH h show ?case by (simp add: re_sub_size_h_next)
qed

subsection \<open>One image\<close>

lemma resize_if_needed_absent:
  "at sn = None \<or> at osn = None \<Longrightarrow> resize_if_needed at s sn osn = s"
  by (auto simp: resize_if_needed_def split: option.splits)

lemma resize_if_needed_present:
  "at sn = Some sz \<Longrightarrow> at osn = Some osz \<Longrightarrow>
   resize_if_needed at s sn osn = str_replace (''/s'' @ sz @ ''/'') (''/s'' @ osz @ ''/'') s"
  by (simp add: resize_if_needed_def)

lemma get_src_resize_Some:
  "at ''src'' = Some src \<Longrightarrow>
   get_src_resize_if_needed at =
     Inr (resize_if_needed at (resize_if_needed at src ''height'' ''data-original-height'')
            ''width'' ''data-original-width'')"
  by (simp add: get_src_resize_if_needed_def)

lemma replace_image_no_src:
  "nodes html img = Some (Tag nm at par cs) \<Longrightarrow> at ''src'' = None \<Longrightarrow>
   replace_image lib folder img html fs = (Inr html, fs)"
  by (simp add: replace_image_def)

lemma replace_image_src:
  "nodes html img = Some (Tag nm at par cs) \<Longrightarrow> at ''src'' = Some src \<Longrightarrow>
   select_target html img
     (resize_if_needed at (resize_if_needed at src ''height'' ''data-original-height'')
        ''width'' ''data-original-width'') = Inr (target_tag, href1) \<Longrightarrow>
   re_sub_size_h href1 = href2 \<Longrightarrow>
   path_name (Path (urlparse_path lib href2)) = name' \<Longrightarrow>
   replace_image lib folder img html fs =
     (case download_and_save_image lib href2 (joinpath folder name') fs of
        (Inl e, fs') \<Rightarrow> (Inl e, fs')
      | (Inr u, fs') \<Rightarrow>
          (replace_with target_tag (next_id html)
             (html\<lparr>nodes := (nodes html)(next_id html \<mapsto> Tag ''img'' [''src'' \<mapsto> name'] None []),
                   next_id := Suc (next_id html)\<rparr>), fs'))"
  by (simp add: replace_image_def get_src_resize_Some new_tag_def Let_def split: prod.splits sum.splits)

lemma open_write_ok:
  "\<not> is_dir fs p \<Longrightarrow> is_dir fs (path_parent (normpath p)) \<Longrightarrow>
   open_write p data fs = (Inr (), fs\<lparr>files := (files fs)(normpath p \<mapsto> data)\<rparr>)"
  by (simp add: open_write_def is_file_def)

lemma download_ok:
  "requests_get lib url = Inr r \<Longrightarrow> status_code r = 200 \<Longrightarrow>
   \<not> is_dir fs p \<Longrightarrow> is_dir fs (path_parent (normpath p)) \<Longrightarrow>
   download_and_save_image lib url p fs = (Inr (), fs\<lparr>files := (files fs)(normpath p \<mapsto> content r)\<rparr>)"
  by (simp add: download_and_save_image_def open_write_ok)

lemma open_write_not_Exception: "fst (open_write p d fs) \<noteq> Inl (Exception msg)"
  by (simp add: open_write_def)

lemma str_nat_404: "str_nat 404 = ''404''"
  by (simp add: str_nat.simps digit_chars_def)

lemma str_nat_204: "str_nat 204 = ''204''"
  by (simp add: str_nat.simps digit_chars_def)
lemma select_target_no_href:
  "nodes html img = Some (Tag nm at (Some p) cs) \<Longrightarrow> nodes html p = Some (Tag ''a'' pattrs pp pcs) \<Longrightarrow>
   pattrs ''href'' = None \<Longrightarrow> select_target html img href = Inl (KeyError ''href'')"
  by (simp add: select_target_def find_parent_def)

lemma select_target_link:
  "nodes html img = Some (Tag nm at (Some p) cs) \<Longrightarrow> nodes html p = Some (Tag ''a'' pattrs pp pcs) \<Longrightarrow>
   pattrs ''href'' = Some phref \<Longrightarrow>
   select_target html img href =
     (if has_identical_extension href phref then Inr (p, phref) else Inr (img, href))"
  by (simp add: select_target_def find_parent_def)

lemma replace_image_select_error:
  "nodes html img = Some (Tag nm at par cs) \<Longrightarrow> at ''src'' = Some src \<Longrightarrow>
   select_target html img
     (resize_if_needed at (resize_if_needed at src ''height'' ''data-original-height'')
        ''width'' ''data-original-width'') = Inl e \<Longrightarrow>
   replace_image lib folder img html fs = (Inl e, fs)"
  by (simp add: replace_image_def get_src_resize_Some)

lemma replace_images_append:
  "replace_images lib folder pre html0 fs0 = (Inr html, fs) \<Longrightarrow>
   replace_images lib folder (pre @ imgs) html0 fs0 = replace_images lib folder imgs html fs"
proof (induction pre arbitrary: html0 fs0)
  case Nil
  then show ?case by simp
next
  case (Cons i pre)
  then show ?case
    by (auto split: prod.splits sum.splits)
qed

subsection \<open>One post\<close>

lemma is_draft_iff:
  "is_draft post \<longleftrightarrow> published_url post = None \<or> published_url post = Some []"
  by (simp add: is_draft_def split: option.splits)

lemma resolve_post_draft:
  "is_draft post \<Longrightarrow>
   resolve_post lib opts post um =
     \<lparr>slug = slugify lib (atom_title post),
      post_folder =
        joinpath (joinpath (Path (output_folder opts)) ''draft_posts'')
          (published_date (parse lib (atom_published post)) @ ''-'' @ slugify lib (atom_title post)),
      aliases = [], url_map_out = um\<rparr>"
  by (auto simp: resolve_post_def is_draft_def Let_def split: option.splits)

lemma resolve_post_published:
  "published_url post = Some purl \<Longrightarrow> purl \<noteq> [] \<Longrightarrow>
   resolve_post lib opts post um =
     \<lparr>slug = path_stem (Path (urlparse_path lib purl)),
      post_folder =
        joinpath (joinpath (joinpath (Path (output_folder opts)) ''post'')
                    (format_zero_pad 4 (year (parse lib (atom_published post)))))
          (published_date (parse lib (atom_published post)) @ ''-''
             @ path_stem (Path (urlparse_path lib purl))),
      aliases = [path_str (Path (urlparse_path lib purl))],
      url_map_out = um @ [(purl, new_root opts @ path_str (path_parent (Path (urlparse_path lib purl)))
                                   @ ''/'' @ path_stem (Path (urlparse_path lib purl)))]\<rparr>"
  by (simp add: resolve_post_def Let_def)

lemma post_folder_url_map:
  "post_folder (resolve_post lib opts post um) = post_folder (resolve_post lib opts post um')"
  by (simp add: resolve_post_def Let_def split: option.splits)

lemma process_post_url_map:
  "snd (snd (process_post lib opts post fs um)) = url_map_out (resolve_post lib opts post um)"
  by (simp add: process_post_def Let_def split: sum.splits prod.splits)

lemma process_post_exists:
  "path_exists fs (post_folder (resolve_post lib opts post um)) \<Longrightarrow>
   process_post lib opts post fs um =
     (Inl (FileExistsError (path_str (post_folder (resolve_post lib opts post um)))), fs,
      url_map_out (resolve_post lib opts post um))"
  by (simp add: process_post_def Let_def mkdir_parents_def)

lemma process_post_ok:
  "mkdir_parents (post_folder (resolve_post lib opts post um)) fs = Inr fs1 \<Longrightarrow>
   get_post_tags (atom_category post) = Inr tags \<Longrightarrow>
   replace_images_with_downloaded lib (bs lib (atom_content post))
     (post_folder (resolve_post lib opts post um)) fs1 = (Inr html, fs2) \<Longrightarrow>
   open_write (joinpath (post_folder (resolve_post lib opts post um)) ''index.md'')
     (''---'' @ nl
        @ strip (yaml_dump lib (metadata_dict opts (atom_title post) (resolve_post lib opts post um)
                   (published_date (parse lib (atom_published post))) (atom_author_name post) tags))
        @ nl @ ''---'' @ nl @ strip (convert_text lib html)) fs2 = (Inr (), fs3) \<Longrightarrow>
   process_post lib opts post fs um = (Inr (), fs3, url_map_out (resolve_post lib opts post um))"
  by (simp add: process_post_def Let_def)

lemma metadata_dict_fields:
  "md_title (metadata_dict opts title r pdate author tags) = title
   \<and> md_slug (metadata_dict opts title r pdate author tags) = slug r
   \<and> md_published (metadata_dict opts title r pdate author tags) = pdate
   \<and> md_author (metadata_dict opts title r pdate author tags) = author
   \<and> md_tags (metadata_dict opts title r pdate author tags) = tags"
  by (simp add: metadata_dict_def)

lemma process_post_images_error:
  "mkdir_parents (post_folder (resolve_post lib opts post um)) fs = Inr fs1 \<Longrightarrow>
   get_post_tags (atom_category post) = Inr tags \<Longrightarrow>
   replace_images_with_downloaded lib (bs lib (atom_content post))
     (post_folder (resolve_post lib opts post um)) fs1 = (Inl e, fs2) \<Longrightarrow>
   process_post lib opts post fs um = (Inl e, fs2, url_map_out (resolve_post lib opts post um))"
  by (simp add: process_post_def Let_def)

lemma open_write_dirs: "open_write p d fs = (r, fs') \<Longrightarrow> dirs fs' = dirs fs"
  by (auto simp: open_write_def split: if_splits)

lemma download_dirs: "download_and_save_image lib u p fs = (r, fs') \<Longrightarrow> dirs fs' = dirs fs"
  by (auto simp: download_and_save_image_def split: sum.splits if_splits dest: open_write_dirs)

lemma replace_image_dirs: "replace_image lib folder img html fs = (r, fs') \<Longrightarrow> dirs fs' = dirs fs"
  by (auto simp: replace_image_def Let_def new_tag_def
      split: option.splits pagenode.splits sum.splits prod.splits if_splits dest: download_dirs)

lemma replace_images_dirs: "replace_images lib folder imgs html fs = (r, fs') \<Longrightarrow> dirs fs' = dirs fs"
proof (induction imgs arbitrary: html fs)
  case Nil
  then show ?case by simp
next
  case (Cons img imgs)
  obtain r1 fs1 where s: "replace_image lib folder img html fs = (r1, fs1)"
    by (cases "replace_image lib folder img html fs")
  then have d: "dirs fs1 = dirs fs" by (rule replace_image_dirs)
  show ?case
  proof (cases r1)
    case (Inl e)
    with Cons.prems s d show ?thesis by simp
  next
    case (Inr h)
    with Cons.prems s have "replace_images lib folder imgs h fs1 = (r, fs')" by simp
    then have "dirs fs' = dirs fs1" by (rule Cons.IH)
    with d show ?thesis by simp
  qed
qed

lemma mkdir_parents_dirs:
  "mkdir_parents p fs = Inr fs1 \<Longrightarrow> normpath p \<in> dirs fs1 \<and> dirs fs \<subseteq> dirs fs1"
  by (auto simp: mkdir_parents_def split: if_splits)

lemma path_exists_dirs: "normpath p \<in> dirs fs \<Longrightarrow> path_exists fs p"
  by (simp add: path_exists_def is_dir_def)

lemma process_post_dirs:
  assumes "process_post lib opts post fs um = (r, fs', um')"
  shows "dirs fs \<subseteq> dirs fs'"
    and "r = Inr u \<Longrightarrow> normpath (post_folder (resolve_post lib opts post um)) \<in> dirs fs'"
proof -
  let ?F = "post_folder (resolve_post lib opts post um)"
  have "dirs fs \<subseteq> dirs fs' \<and> (r = Inr u \<longrightarrow> normpath ?F \<in> dirs fs')"
  proof (cases "mkdir_parents ?F fs")
    case (Inl e)
    with assms show ?thesis by (auto simp: process_post_def Let_def)
  next
    case (Inr fs1)
    then have m: "normpath ?F \<in> dirs fs1" "dirs fs \<subseteq> dirs fs1"
      using mkdir_parents_dirs by blast+
    have "dirs fs' = dirs fs1"
      using assms Inr
      by (auto simp: process_post_def Let_def replace_images_with_downloaded_def
          split: sum.splits prod.splits dest: replace_images_dirs open_write_dirs)
    with m show ?thesis by simp
  qed
  then show "dirs fs \<subseteq> dirs fs'"
    and "r = Inr u \<Longrightarrow> normpath (post_folder (resolve_post lib opts post um)) \<in> dirs fs'"
    by simp_all
qed

lemma process_posts_dirs:
  "process_posts lib opts posts fs um = (r, fs', um') \<Longrightarrow> dirs fs \<subseteq> dirs fs'"
proof (induction posts arbitrary: fs um)
  case Nil
  then show ?case by simp
next
  case (Cons post posts)
  obtain r1 fs1 um1 where s: "process_post lib opts post fs um = (r1, fs1, um1)"
    by (cases "process_post lib opts post fs um") auto
  then have d: "dirs fs \<subseteq> dirs fs1" by (rule process_post_dirs(1))
  show ?case
  proof (cases r1)
    case (Inl e)
    with Cons.prems s d show ?thesis by simp
  next
    case (Inr h)
    with Cons.prems s have "process_posts lib opts posts fs1 um1 = (r, fs', um')" by simp
    then have "dirs fs1 \<subseteq> dirs fs'" by (rule Cons.IH)
    with d show ?thesis by blast
  qed
qed

lemma process_posts_append:
  "process_posts lib opts pre fs um = (Inr u, fs1, um1) \<Longrightarrow>
   process_posts lib opts (pre @ posts) fs um = process_posts lib opts posts fs1 um1"
proof (induction pre arbitrary: fs um)
  case Nil
  then show ?case by simp
next
  case (Cons p pre)
  then show ?case
    by (auto split: prod.splits sum.splits)
qed

lemma filter_find_href:
  "(case filter P xs of [] \<Rightarrow> None | e # _ \<Rightarrow> e ''href'')
     = (case find P xs of None \<Rightarrow> None | Some (e :: string \<rightharpoonup> string) \<Rightarrow> e ''href'')"
  by (induction xs) auto

lemma published_url_find:
  "published_url post =
     (case find (\<lambda>e. e ''rel'' = Some ''alternate'') (atom_link post) of
        None \<Rightarrow> None | Some e \<Rightarrow> e ''href'')"
  unfolding published_url_def by (rule filter_find_href)

lemma str_nat_digits: "str_nat n \<noteq> [] \<and> set (str_nat n) \<subseteq> set digit_chars"
proof (induction n rule: str_nat.induct)
  case (1 n)
  have d: "k < 10 \<Longrightarrow> digit_chars ! k \<in> set digit_chars" for k
    by (rule nth_mem) (simp add: digit_chars_def)
  show ?case
  proof (cases "n < 10")
    case True
    then show ?thesis
      by (subst (1 2) str_nat.simps) (simp add: d)
  next
    case False
    with 1 have "str_nat (n div 10) \<noteq> [] \<and> set (str_nat (n div 10)) \<subseteq> set digit_chars"
      by simp
    moreover have "digit_chars ! (n mod 10) \<in> set digit_chars"
      by (rule d) simp
    ultimately show ?thesis
      using False by (subst (1 2) str_nat.simps) simp
  qed
qed

lemma format_zero_pad_hd:
  "format_zero_pad w n \<noteq> [] \<and> hd (format_zero_pad w n) \<in> set digit_chars"
proof -
  have s: "str_nat n \<noteq> []" and h: "hd (str_nat n) \<in> set digit_chars"
    using str_nat_digits [of n] by (auto simp: subset_iff)
  show ?thesis
  proof (cases "w - length (str_nat n)")
    case 0
    with s h show ?thesis by (simp add: format_zero_pad_def)
  next
    case (Suc k)
    then show ?thesis by (simp add: format_zero_pad_def digit_chars_def)
  qed
qed

lemma published_date_hd:
  "published_date d \<noteq> [] \<and> hd (published_date d) \<noteq> CHR ''/''"
proof -
  have "format_zero_pad 4 (year d) \<noteq> []" and "hd (format_zero_pad 4 (year d)) \<in> set digit_chars"
    using format_zero_pad_hd by blast+
  then show ?thesis
    by (auto simp: published_date_def digit_chars_def)
qed

lemma path_root_relative: "s \<noteq> [] \<Longrightarrow> hd s \<noteq> CHR ''/'' \<Longrightarrow> path_root (Path s) = []"
  by (simp add: Path_def splitroot_def)

lemma joinpath_relative:
  "path_root (Path s) = [] \<Longrightarrow> joinpath p s = PurePath (path_root p) (path_parts p @ path_parts (Path s))"
  by (simp add: joinpath_def Let_def)

lemma Path_draft_posts: "Path ''draft_posts'' = PurePath [] [''draft_posts'']"
  by (simp add: Path_def splitroot_def)

lemma draft_folder_parts:
  "joinpath (joinpath root_folder ''draft_posts'') (published_date d @ ''-'' @ s)
     = PurePath (path_root root_folder)
         (path_parts root_folder @ ''draft_posts'' # path_parts (Path (published_date d @ ''-'' @ s)))"
proof -
  have "published_date d @ ''-'' @ s \<noteq> []" "hd (published_date d @ ''-'' @ s) \<noteq> CHR ''/''"
    using published_date_hd [of d] by simp_all
  then have "path_root (Path (published_date d @ ''-'' @ s)) = []"
    by (rule path_root_relative)
  then show ?thesis
    by (simp add: joinpath_relative Path_draft_posts)
qed

lemma rfind_last_dot:
  assumes "CHR ''.'' \<notin> set ext"
  shows "rfind (base @ ''.'' @ ext) CHR ''.'' = int (length base)"
proof -
  have "x \<in> set (rev ext) \<Longrightarrow> x \<noteq> CHR ''.''" for x
    using assms by auto
  then have "takeWhile (\<lambda>x. x \<noteq> CHR ''.'') (rev ext @ CHR ''.'' # rev base)
      = rev ext @ takeWhile (\<lambda>x. x \<noteq> CHR ''.'') (CHR ''.'' # rev base)"
    by (rule takeWhile_append2)
  then have "takeWhile (\<lambda>x. x \<noteq> CHR ''.'') (rev ext @ CHR ''.'' # rev base) = rev ext"
    by simp
  then show ?thesis
    by (simp add: rfind_def)
qed

lemma path_stem_strips_extension:
  assumes "path_name q = base @ ''.'' @ ext" "base \<noteq> []" "ext \<noteq> []" "CHR ''.'' \<notin> set ext"
  shows "path_stem q = base"
proof -
  have "rfind (path_name q) CHR ''.'' = int (length base)"
    using assms(1) rfind_last_dot [OF assms(4), of base] by simp
  moreover have "0 < int (length base)" "int (length base) < int (length (path_name q)) - 1"
    using assms by simp_all
  ultimately show ?thesis
    using assms(1) by (simp add: path_stem_def Let_def)
qed

lemma path_stem_no_dot: "CHR ''.'' \<notin> set (path_name q) \<Longrightarrow> path_stem q = path_name q"
  by (simp add: path_stem_def rfind_def Let_def)

subsection \<open>Evaluation on the example inputs\<close>

lemma Path_out: "Path ''out'' = PurePath [] [''out'']"
  by (simp add: Path_def splitroot_def)

lemma normpath_out_file: "normpath (PurePath [] [''out'', n]) = (if n = ''..'' then PurePath [] [] else PurePath [] [''out'', n])"
  by (simp add: normpath_def step_dotdot_def)

lemma is_dir_out: "is_dir (fs_out\<lparr>files := f\<rparr>) (PurePath [] [''out''])"
  by (simp add: is_dir_def normpath_def step_dotdot_def fs_out_def)

lemma not_is_dir_out_file: "n \<noteq> ''..'' \<Longrightarrow> \<not> is_dir (fs_out\<lparr>files := f\<rparr>) (PurePath [] [''out'', n])"
  by (simp add: is_dir_def normpath_out_file fs_out_def)

lemma download_out:
  "requests_get lib url = Inr r \<Longrightarrow> status_code r = 200 \<Longrightarrow> n \<noteq> ''..'' \<Longrightarrow>
   download_and_save_image lib url (PurePath [] [''out'', n]) (fs_out\<lparr>files := f\<rparr>)
     = (Inr (), fs_out\<lparr>files := f(PurePath [] [''out'', n] \<mapsto> content r)\<rparr>)"
  using download_ok [of lib url r "fs_out\<lparr>files := f\<rparr>" "PurePath [] [''out'', n]"]
  by (simp add: not_is_dir_out_file normpath_out_file path_parent_def is_dir_out)

lemma fs_out_files: "fs_out\<lparr>files := Map.empty\<rparr> = fs_out"
  by (simp add: fs_out_def)

lemma find_all_anchor: "find_all anchor_soup ''img'' = [2]"
  by (simp add: find_all_def anchor_soup_def is_tag_named_def eval_nat_numeral)

lemma find_all_two_pics: "find_all two_pics_soup ''img'' = [1, 2]"
  by (simp add: find_all_def two_pics_soup_def is_tag_named_def eval_nat_numeral)

lemma find_all_link_two_imgs: "find_all link_two_imgs_soup ''img'' = [2, 3]"
  by (simp add: find_all_def link_two_imgs_soup_def is_tag_named_def eval_nat_numeral)

lemma published_date_demo: "published_date (demo_parse ''2019-03-07T10:00:00.000+01:00'') = ''2019-03-07''"
  by (simp add: published_date_def demo_parse_def demo_int_def digit_chars_def format_zero_pad_def str_nat.simps)

lemma published_url_draft: "published_url draft_post = None"
  by (simp add: published_url_def draft_post_def)

lemma slugify_hello: "demo_slugify ''Hello World'' = ''hello-world''"
  by (simp add: demo_slugify_def)

lemma draft_folder:
  "joinpath (joinpath (Path ''out'') ''draft_posts'') ''2019-03-07-hello-world''
     = PurePath [] [''out'', ''draft_posts'', ''2019-03-07-hello-world'']"
  by (simp add: joinpath_def Path_def splitroot_def Let_def)

lemma resolve_draft_post:
  "resolve_post (demo_library web html) demo_options draft_post um =
     \<lparr>slug = ''hello-world'',
      post_folder = PurePath [] [''out'', ''draft_posts'', ''2019-03-07-hello-world''],
      aliases = [], url_map_out = um\<rparr>"
proof -
  have f: "atom_title draft_post = ''Hello World''"
    "atom_published draft_post = ''2019-03-07T10:00:00.000+01:00''"
    by (simp_all add: draft_post_def)
  have l: "slugify (demo_library web html) = demo_slugify"
    "parse (demo_library web html) = demo_parse"
    "output_folder demo_options = ''out''"
    by (simp_all add: demo_library_def demo_options_def)
  have "is_draft draft_post"
    by (simp add: is_draft_def published_url_draft)
  then show ?thesis
    by (simp add: resolve_post_draft f l published_date_demo slugify_hello draft_folder)
qed

lemma find_all_empty: "find_all empty_soup ''img'' = []"
  by (simp add: find_all_def empty_soup_def is_tag_named_def)

lemma get_post_tags_demo: "get_post_tags [demo_kind, demo_tag] = Inr [''travel'']"
  by (simp add: demo_kind_def demo_tag_def CATEGORY_KIND_def CATEGORY_TAG_def)

lemma is_post_entry_demo: "is_post_entry [demo_kind, demo_tag] = Inr True"
  by (simp add: demo_kind_def CATEGORY_KIND_def)

lemma mkdir_three:
  "a \<noteq> ''..'' \<Longrightarrow> b \<noteq> ''..'' \<Longrightarrow> c \<noteq> ''..'' \<Longrightarrow>
   mkdir_parents (PurePath [] [a, b, c]) fs_empty =
     Inr \<lparr>dirs = {PurePath [] [a, b, c], PurePath [] [], PurePath [] [a], PurePath [] [a, b]},
          files = Map.empty\<rparr>"
  by (simp add: mkdir_parents_def path_exists_def is_dir_def is_file_def normpath_def step_dotdot_def
      fs_empty_def ancestors_def eval_nat_numeral)

lemma write_in_three:
  "a \<noteq> ''..'' \<Longrightarrow> b \<noteq> ''..'' \<Longrightarrow> c \<noteq> ''..'' \<Longrightarrow> n \<noteq> ''..'' \<Longrightarrow>
   open_write (PurePath [] [a, b, c, n]) d
       \<lparr>dirs = {PurePath [] [a, b, c], PurePath [] [], PurePath [] [a], PurePath [] [a, b]},
        files = Map.empty\<rparr> =
     (Inr (), \<lparr>dirs = {PurePath [] [a, b, c], PurePath [] [], PurePath [] [a], PurePath [] [a, b]},
               files = [PurePath [] [a, b, c, n] \<mapsto> d]\<rparr>)"
  by (simp add: open_write_def is_dir_def is_file_def normpath_def step_dotdot_def path_parent_def)

lemma process_draft_post_ok:
  "\<exists>fs1. process_post (demo_library [] empty_soup) demo_options draft_post fs_empty um = (Inr (), fs1, um)"
proof -
  let ?lib = "demo_library [] empty_soup"
  let ?F = "PurePath [] [''out'', ''draft_posts'', ''2019-03-07-hello-world'']"
  let ?fs1 = "\<lparr>dirs = {?F, PurePath [] [], PurePath [] [''out''], PurePath [] [''out'', ''draft_posts'']},
          files = Map.empty\<rparr>"
  have F: "post_folder (resolve_post ?lib demo_options draft_post um) = ?F"
    and U: "url_map_out (resolve_post ?lib demo_options draft_post um) = um"
    by (simp_all add: resolve_draft_post)
  have m: "mkdir_parents (post_folder (resolve_post ?lib demo_options draft_post um)) fs_empty = Inr ?fs1"
    by (simp add: F mkdir_three)
  have "atom_category draft_post = [demo_kind, demo_tag]"
    by (simp add: draft_post_def)
  then have t: "get_post_tags (atom_category draft_post) = Inr [''travel'']"
    by (simp only: get_post_tags_demo)
  have i: "replace_images_with_downloaded ?lib (bs ?lib (atom_content draft_post))
     (post_folder (resolve_post ?lib demo_options draft_post um)) ?fs1 = (Inr empty_soup, ?fs1)"
    by (simp add: replace_images_with_downloaded_def demo_library_def find_all_empty)
  have j: "joinpath ?F ''index.md'' = PurePath [] [''out'', ''draft_posts'', ''2019-03-07-hello-world'', ''index.md'']"
    by (simp add: joinpath_def Path_def splitroot_def Let_def)
  obtain fs3 where w: "open_write (joinpath (post_folder (resolve_post ?lib demo_options draft_post um)) ''index.md'')
     (''---'' @ nl
        @ strip (yaml_dump ?lib (metadata_dict demo_options (atom_title draft_post)
                   (resolve_post ?lib demo_options draft_post um)
                   (published_date (parse ?lib (atom_published draft_post))) (atom_author_name draft_post)
                   [''travel'']))
        @ nl @ ''---'' @ nl @ strip (convert_text ?lib empty_soup)) ?fs1 = (Inr (), fs3)"
    by (simp add: F j write_in_three)
  have "process_post ?lib demo_options draft_post fs_empty um
      = (Inr (), fs3, url_map_out (resolve_post ?lib demo_options draft_post um))"
    by (rule process_post_ok [OF m t i w])
  then show ?thesis by (simp add: U)
qed

lemma get_post_entries_two_drafts:
  "get_post_entries [draft_post, draft_post] = Inr [draft_post, draft_post]"
proof -
  have "atom_category draft_post = [demo_kind, demo_tag]"
    by (simp add: draft_post_def)
  then have "is_post_entry (atom_category draft_post) = Inr True"
    by (simp only: is_post_entry_demo)
  then show ?thesis by simp
qed

lemma resolve_hello_draft:
  assumes "is_draft post" "atom_title post = ''Hello World''"
    "atom_published post = ''2019-03-07T10:00:00.000+01:00''"
  shows "resolve_post (demo_library web html) demo_options post um =
     \<lparr>slug = ''hello-world'',
      post_folder = PurePath [] [''out'', ''draft_posts'', ''2019-03-07-hello-world''],
      aliases = [], url_map_out = um\<rparr>"
proof -
  have l: "slugify (demo_library web html) = demo_slugify"
    "parse (demo_library web html) = demo_parse"
    "output_folder demo_options = ''out''"
    by (simp_all add: demo_library_def demo_options_def)
  show ?thesis
    using assms(1)
    by (simp add: resolve_post_draft assms(2,3) l published_date_demo slugify_hello draft_folder)
qed

lemma Path_dated_name: "Path ''2019-03-07-hello-world'' = PurePath [] [''2019-03-07-hello-world'']"
  by (simp add: Path_def splitroot_def)

lemma urlparse_my_post:
  "demo_urlparse_path ''https://old.example/2019/03/my-post.html'' = ''/2019/03/my-post.html''"
  by (simp add: demo_urlparse_path_def Let_def)

lemma Path_my_post:
  "Path ''/2019/03/my-post.html'' = PurePath ''/'' [''2019'', ''03'', ''my-post.html'']"
  by (simp add: Path_def splitroot_def Let_def)

lemma published_date_demo2: "published_date (demo_parse ''2019-03-09T08:30:00.000+01:00'') = ''2019-03-09''"
  by (simp add: published_date_def demo_parse_def demo_int_def digit_chars_def format_zero_pad_def str_nat.simps)

lemma year_demo2: "format_zero_pad 4 (year (demo_parse ''2019-03-09T08:30:00.000+01:00'')) = ''2019''"
  by (simp add: demo_parse_def demo_int_def digit_chars_def format_zero_pad_def str_nat.simps)

lemma published_folder:
  "joinpath (joinpath (joinpath (Path ''out'') ''post'') ''2019'') ''2019-03-09-my-post''
     = PurePath [] [''out'', ''post'', ''2019'', ''2019-03-09-my-post'']"
  by (simp add: joinpath_def Path_def splitroot_def Let_def)


section \<open>The claims\<close>

subsection \<open>C1: two images with the same file name\<close>

text \<open>
  Claim C1 does not hold of the code. A post with the two images
  \<open>http://a.example/x/pic.png\<close> and \<open>http://b.example/y/pic.png\<close> is processed without an
  error; both images are written to \<open>out/pic.png\<close>, and the file holds the bytes of the
  second one: the first image is overwritten. (\<open>check_if_file_exists\<close> of lines 29 to 32
  is never called.)
\<close>

theorem same_name_images_overwrite:
  "(case replace_images_with_downloaded (demo_library two_pics_web empty_soup) two_pics_soup
            (Path ''out'') fs_out of
       (Inr html, fs) \<Rightarrow>
          fs = fs_out\<lparr>files := [PurePath [] [''out'', ''pic.png''] \<mapsto> ''second'']\<rparr>
     | (Inl e, fs) \<Rightarrow> False)"
proof -
  let ?lib = "demo_library two_pics_web empty_soup"
  let ?F = "PurePath [] [''out'']"
  let ?P = "PurePath [] [''out'', ''pic.png'']"
  let ?A = "''http://a.example/x/pic.png''"
  let ?B = "''http://b.example/y/pic.png''"
  have jp: "joinpath ?F ''pic.png'' = ?P"
    by (simp add: joinpath_def Path_def splitroot_def Let_def)
  have reA: "re_sub_size_h ?A = ?A"
    by (simp add: re_sub_size_h.simps match_size_h_def)
  have reB: "re_sub_size_h ?B = ?B"
    by (simp add: re_sub_size_h.simps match_size_h_def)
  have nmA: "path_name (Path (urlparse_path ?lib ?A)) = ''pic.png''"
    by (simp add: demo_library_def demo_urlparse_path_def Path_def splitroot_def path_name_def Let_def)
  have nmB: "path_name (Path (urlparse_path ?lib ?B)) = ''pic.png''"
    by (simp add: demo_library_def demo_urlparse_path_def Path_def splitroot_def path_name_def Let_def)
  have gA: "requests_get ?lib ?A = Inr \<lparr>status_code = 200, content = ''first''\<rparr>"
    by (simp add: demo_library_def demo_requests_get_def two_pics_web_def)
  have gB: "requests_get ?lib ?B = Inr \<lparr>status_code = 200, content = ''second''\<rparr>"
    by (simp add: demo_library_def demo_requests_get_def two_pics_web_def)
  have dlA: "download_and_save_image ?lib ?A ?P fs_out = (Inr (), fs_out\<lparr>files := [?P \<mapsto> ''first'']\<rparr>)"
    using download_out [OF gA, of "''pic.png''" Map.empty] by (simp add: fs_out_files)
  have dlB: "download_and_save_image ?lib ?B ?P (fs_out\<lparr>files := [?P \<mapsto> ''first'']\<rparr>)
      = (Inr (), fs_out\<lparr>files := [?P \<mapsto> ''second'']\<rparr>)"
    using download_out [OF gB, of "''pic.png''" "[?P \<mapsto> ''first'']"] by simp
  have n1: "nodes two_pics_soup 1 = Some (Tag ''img'' [''src'' \<mapsto> ?A] (Some 0) [])"
    by (simp add: two_pics_soup_def)
  have sel1: "select_target two_pics_soup 1
      (resize_if_needed [''src'' \<mapsto> ?A] (resize_if_needed [''src'' \<mapsto> ?A] ?A ''height'' ''data-original-height'')
        ''width'' ''data-original-width'') = Inr (1, ?A)"
    by (simp add: resize_if_needed_absent select_target_def find_parent_def two_pics_soup_def)
  obtain h1 where s1: "replace_image ?lib ?F 1 two_pics_soup fs_out
        = (Inr h1, fs_out\<lparr>files := [?P \<mapsto> ''first'']\<rparr>)"
    and h1_2: "nodes h1 2 = Some (Tag ''img'' [''src'' \<mapsto> ?B] (Some 0) [])"
    and h1_0: "nodes h1 0 = Some (Tag ''[document]'' Map.empty None [3, 2])"
    and h1_n: "next_id h1 = 4"
  proof -
    have "\<exists>h1. replace_image ?lib ?F 1 two_pics_soup fs_out = (Inr h1, fs_out\<lparr>files := [?P \<mapsto> ''first'']\<rparr>)
      \<and> nodes h1 2 = Some (Tag ''img'' [''src'' \<mapsto> ?B] (Some 0) [])
      \<and> nodes h1 0 = Some (Tag ''[document]'' Map.empty None [3, 2])
      \<and> next_id h1 = 4"
      by (subst replace_image_src [OF n1 _ sel1 reA nmA])
         (simp_all add: jp dlA replace_with_def two_pics_soup_def set_parent_def)
    then show ?thesis using that by blast
  qed
  have sel2: "select_target h1 2
      (resize_if_needed [''src'' \<mapsto> ?B] (resize_if_needed [''src'' \<mapsto> ?B] ?B ''height'' ''data-original-height'')
        ''width'' ''data-original-width'') = Inr (2, ?B)"
    by (simp add: resize_if_needed_absent select_target_def find_parent_def h1_2 h1_0)
  have s2: "\<exists>h2. replace_image ?lib ?F 2 h1 (fs_out\<lparr>files := [?P \<mapsto> ''first'']\<rparr>)
        = (Inr h2, fs_out\<lparr>files := [?P \<mapsto> ''second'']\<rparr>)"
    by (subst replace_image_src [OF h1_2 _ sel2 reB nmB])
       (simp_all add: jp dlB replace_with_def h1_2 h1_0 h1_n set_parent_def)
  then obtain h2 where s2': "replace_image ?lib ?F 2 h1 (fs_out\<lparr>files := [?P \<mapsto> ''first'']\<rparr>)
        = (Inr h2, fs_out\<lparr>files := [?P \<mapsto> ''second'']\<rparr>)"
    by blast
  have "replace_images ?lib ?F [1, 2] two_pics_soup fs_out
      = (Inr h2, fs_out\<lparr>files := [?P \<mapsto> ''second'']\<rparr>)"
    by (simp only: replace_images.simps s1 s2' prod.case sum.case)
  then have "replace_images_with_downloaded ?lib two_pics_soup (Path ''out'') fs_out
      = (Inr h2, fs_out\<lparr>files := [?P \<mapsto> ''second'']\<rparr>)"
    by (simp only: replace_images_with_downloaded_def find_all_two_pics Path_out)
  then show ?thesis by simp
qed

subsection \<open>C2: drafts\<close>

text \<open>
  Claim C2, as the code has it. A post is a draft if and only if it has no link with
  \<open>rel="alternate"\<close>, or the first such link has no \<open>href\<close> or an empty one. For a
  draft the slug is the slugified title, the destination folder is
  \<open><output_root>/draft_posts/<published_date>-<slug>\<close> (its components are those of the
  output root, then \<open>draft_posts\<close>, then those of the dated name), there is no alias,
  \<open>process_post\<close> leaves the URL map as it was, and the front matter gets no
  \<open>aliases\<close> key.
\<close>

theorem draft_iff_no_usable_alternate_href:
  "(is_draft post \<longleftrightarrow>
      (case find (\<lambda>e. e ''rel'' = Some ''alternate'') (atom_link post) of
         None \<Rightarrow> True
       | Some e \<Rightarrow> e ''href'' = None \<or> e ''href'' = Some []))
   \<and> (is_draft post \<longrightarrow>
        resolve_post lib opts post um =
          \<lparr>slug = slugify lib (atom_title post),
           post_folder =
             PurePath (path_root (Path (output_folder opts)))
               (path_parts (Path (output_folder opts)) @ ''draft_posts''
                  # path_parts (Path (published_date (parse lib (atom_published post)) @ ''-''
                                        @ slugify lib (atom_title post)))),
           aliases = [], url_map_out = um\<rparr>
        \<and> snd (snd (process_post lib opts post fs um)) = um
        \<and> md_aliases (metadata_dict opts title (resolve_post lib opts post um) pdate author tags) = None)"
proof (intro conjI impI)
  show "is_draft post \<longleftrightarrow>
      (case find (\<lambda>e. e ''rel'' = Some ''alternate'') (atom_link post) of
         None \<Rightarrow> True
       | Some e \<Rightarrow> e ''href'' = None \<or> e ''href'' = Some [])"
    by (simp add: is_draft_iff published_url_find split: option.splits)
next
  assume d: "is_draft post"
  then have r: "resolve_post lib opts post um =
          \<lparr>slug = slugify lib (atom_title post),
           post_folder =
             PurePath (path_root (Path (output_folder opts)))
               (path_parts (Path (output_folder opts)) @ ''draft_posts''
                  # path_parts (Path (published_date (parse lib (atom_published post)) @ ''-''
                                        @ slugify lib (atom_title post)))),
           aliases = [], url_map_out = um\<rparr>"
    by (simp only: resolve_post_draft draft_folder_parts)
  then show "resolve_post lib opts post um =
          \<lparr>slug = slugify lib (atom_title post),
           post_folder =
             PurePath (path_root (Path (output_folder opts)))
               (path_parts (Path (output_folder opts)) @ ''draft_posts''
                  # path_parts (Path (published_date (parse lib (atom_published post)) @ ''-''
                                        @ slugify lib (atom_title post)))),
           aliases = [], url_map_out = um\<rparr>" .
  show "snd (snd (process_post lib opts post fs um)) = um"
    by (simp add: process_post_url_map r)
  show "md_aliases (metadata_dict opts title (resolve_post lib opts post um) pdate author tags) = None"
    by (simp add: metadata_dict_def r)
qed

text \<open>
  The example of the specification: the title ``Hello World'' and no alternate link give
  the folder \<open>draft_posts/2019-03-07-hello-world\<close>, and the URL map is unchanged.
\<close>

theorem draft_iff_no_usable_alternate_href_witness:
  "is_draft draft_post
   \<and> resolve_post (demo_library [] empty_soup) demo_options draft_post [(''a'', ''b'')] =
       \<lparr>slug = ''hello-world'',
        post_folder = PurePath [] [''out'', ''draft_posts'', ''2019-03-07-hello-world''],
        aliases = [], url_map_out = [(''a'', ''b'')]\<rparr>
   \<and> snd (snd (process_post (demo_library [] empty_soup) demo_options draft_post fs_empty [(''a'', ''b'')]))
       = [(''a'', ''b'')]"
proof -
  let ?lib = "demo_library [] empty_soup"
  note T = draft_iff_no_usable_alternate_href [where post = draft_post and lib = ?lib
      and opts = demo_options and um = "[(''a'', ''b'')]" and fs = fs_empty]
  have "find (\<lambda>e. e ''rel'' = Some ''alternate'') (atom_link draft_post) = None"
    by (simp add: draft_post_def)
  with T have d: "is_draft draft_post"
    by simp
  with T have r: "resolve_post ?lib demo_options draft_post [(''a'', ''b'')] =
          \<lparr>slug = slugify ?lib (atom_title draft_post),
           post_folder =
             PurePath (path_root (Path (output_folder demo_options)))
               (path_parts (Path (output_folder demo_options)) @ ''draft_posts''
                  # path_parts (Path (published_date (parse ?lib (atom_published draft_post)) @ ''-''
                                        @ slugify ?lib (atom_title draft_post)))),
           aliases = [], url_map_out = [(''a'', ''b'')]\<rparr>"
    and u: "snd (snd (process_post ?lib demo_options draft_post fs_empty [(''a'', ''b'')])) = [(''a'', ''b'')]"
    by blast+
  have f: "atom_title draft_post = ''Hello World''"
    "atom_published draft_post = ''2019-03-07T10:00:00.000+01:00''"
    by (simp_all add: draft_post_def)
  have l: "slugify ?lib = demo_slugify" "parse ?lib = demo_parse" "output_folder demo_options = ''out''"
    by (simp_all add: demo_library_def demo_options_def)
  have "resolve_post ?lib demo_options draft_post [(''a'', ''b'')] =
       \<lparr>slug = ''hello-world'',
        post_folder = PurePath [] [''out'', ''draft_posts'', ''2019-03-07-hello-world''],
        aliases = [], url_map_out = [(''a'', ''b'')]\<rparr>"
    by (simp add: r f l published_date_demo slugify_hello Path_out Path_dated_name)
  with d u show ?thesis by blast
qed

text \<open>
  Claim C2 as it is stated fails for a post whose alternate link has no \<open>href\<close>: it
  has a link with \<open>rel="alternate"\<close> and is a draft.
\<close>

theorem alternate_link_without_href_is_draft_counterexample:
  "hd (atom_link alternate_without_href_post) ''rel'' = Some ''alternate''
   \<and> is_draft alternate_without_href_post
   \<and> resolve_post (demo_library [] empty_soup) demo_options alternate_without_href_post [] =
       \<lparr>slug = ''hello-world'',
        post_folder = PurePath [] [''out'', ''draft_posts'', ''2019-03-07-hello-world''],
        aliases = [], url_map_out = []\<rparr>"
proof -
  have a: "hd (atom_link alternate_without_href_post) ''rel'' = Some ''alternate''"
    by (simp add: alternate_without_href_post_def)
  have d: "is_draft alternate_without_href_post"
    by (simp add: is_draft_def published_url_def alternate_without_href_post_def)
  have "atom_title alternate_without_href_post = ''Hello World''"
    "atom_published alternate_without_href_post = ''2019-03-07T10:00:00.000+01:00''"
    by (simp_all add: alternate_without_href_post_def draft_post_def)
  with d have "resolve_post (demo_library [] empty_soup) demo_options alternate_without_href_post [] =
       \<lparr>slug = ''hello-world'',
        post_folder = PurePath [] [''out'', ''draft_posts'', ''2019-03-07-hello-world''],
        aliases = [], url_map_out = []\<rparr>"
    by (rule resolve_hello_draft)
  with a d show ?thesis by blast
qed

subsection \<open>C3: published posts\<close>

text \<open>
  Claim C3, as the code has it. Let the first link with \<open>rel="alternate"\<close> of a post
  have the \<open>href\<close> \<open>purl\<close>, not empty, and let \<open>p\<close> be the path of that URL. Then the
  slug is the stem of \<open>p\<close>, the destination folder is
  \<open><output_root>/post/<year>/<published_date>-<slug>\<close>, the only alias is \<open>p\<close>, and
  \<open>process_post\<close> appends the pair of \<open>purl\<close> and
  \<open>new_root + str(p.parent) + '/' + p.stem\<close> to the URL map. The stem is the final
  segment without its extension: a name \<open>base.ext\<close> gives \<open>base\<close>, a name without a
  dot is kept.
\<close>

theorem published_post_slug_folder_url_map:
  "(find (\<lambda>e. e ''rel'' = Some ''alternate'') (atom_link post) = Some e
      \<and> e ''href'' = Some purl \<and> purl \<noteq> [] \<longrightarrow>
      resolve_post lib opts post um =
        \<lparr>slug = path_stem (Path (urlparse_path lib purl)),
         post_folder =
           joinpath (joinpath (joinpath (Path (output_folder opts)) ''post'')
                       (format_zero_pad 4 (year (parse lib (atom_published post)))))
             (published_date (parse lib (atom_published post)) @ ''-''
                @ path_stem (Path (urlparse_path lib purl))),
         aliases = [path_str (Path (urlparse_path lib purl))],
         url_map_out =
           um @ [(purl, new_root opts @ path_str (path_parent (Path (urlparse_path lib purl)))
                          @ ''/'' @ path_stem (Path (urlparse_path lib purl)))]\<rparr>
      \<and> snd (snd (process_post lib opts post fs um)) =
           um @ [(purl, new_root opts @ path_str (path_parent (Path (urlparse_path lib purl)))
                          @ ''/'' @ path_stem (Path (urlparse_path lib purl)))])
   \<and> (path_name q = base @ ''.'' @ ext \<and> base \<noteq> [] \<and> ext \<noteq> [] \<and> CHR ''.'' \<notin> set ext \<longrightarrow>
        path_stem q = base)
   \<and> (CHR ''.'' \<notin> set (path_name q) \<longrightarrow> path_stem q = path_name q)"
proof (intro conjI impI)
  assume a: "find (\<lambda>e. e ''rel'' = Some ''alternate'') (atom_link post) = Some e
      \<and> e ''href'' = Some purl \<and> purl \<noteq> []"
  then have u: "published_url post = Some purl"
    by (simp add: published_url_find)
  from a have ne: "purl \<noteq> []" by simp
  show r: "resolve_post lib opts post um =
        \<lparr>slug = path_stem (Path (urlparse_path lib purl)),
         post_folder =
           joinpath (joinpath (joinpath (Path (output_folder opts)) ''post'')
                       (format_zero_pad 4 (year (parse lib (atom_published post)))))
             (published_date (parse lib (atom_published post)) @ ''-''
                @ path_stem (Path (urlparse_path lib purl))),
         aliases = [path_str (Path (urlparse_path lib purl))],
         url_map_out =
           um @ [(purl, new_root opts @ path_str (path_parent (Path (urlparse_path lib purl)))
                          @ ''/'' @ path_stem (Path (urlparse_path lib purl)))]\<rparr>"
    by (rule resolve_post_published [OF u ne])
  show "snd (snd (process_post lib opts post fs um)) =
           um @ [(purl, new_root opts @ path_str (path_parent (Path (urlparse_path lib purl)))
                          @ ''/'' @ path_stem (Path (urlparse_path lib purl)))]"
    by (simp add: process_post_url_map r)
next
  assume "path_name q = base @ ''.'' @ ext \<and> base \<noteq> [] \<and> ext \<noteq> [] \<and> CHR ''.'' \<notin> set ext"
  then have "path_name q = base @ ''.'' @ ext" "base \<noteq> []" "ext \<noteq> []" "CHR ''.'' \<notin> set ext"
    by simp_all
  then show "path_stem q = base"
    by (rule path_stem_strips_extension)
next
  assume "CHR ''.'' \<notin> set (path_name q)"
  then show "path_stem q = path_name q"
    by (rule path_stem_no_dot)
qed

text \<open>
  The example of the specification: the alternate link
  \<open>https://old.example/2019/03/my-post.html\<close> gives the slug \<open>my-post\<close> and the folder
  \<open>post/2019/2019-03-09-my-post\<close>.
\<close>

theorem published_post_slug_folder_url_map_witness:
  "resolve_post (demo_library [] empty_soup) demo_options published_post [] =
       \<lparr>slug = ''my-post'',
        post_folder = PurePath [] [''out'', ''post'', ''2019'', ''2019-03-09-my-post''],
        aliases = [''/2019/03/my-post.html''],
        url_map_out = [(''https://old.example/2019/03/my-post.html'', ''/blog/2019/03/my-post'')]\<rparr>
   \<and> snd (snd (process_post (demo_library [] empty_soup) demo_options published_post fs_empty []))
       = [(''https://old.example/2019/03/my-post.html'', ''/blog/2019/03/my-post'')]
   \<and> path_stem (PurePath ''/'' [''a.b'', ''notes'']) = ''notes''"
proof -
  let ?lib = "demo_library [] empty_soup"
  let ?U = "''https://old.example/2019/03/my-post.html''"
  let ?e = "[''rel'' \<mapsto> ''alternate'', ''href'' \<mapsto> ?U]"
  let ?p = "PurePath ''/'' [''2019'', ''03'', ''my-post.html'']"
  note T = published_post_slug_folder_url_map [where post = published_post and lib = ?lib
      and opts = demo_options and um = "[]" and fs = fs_empty and e = ?e and purl = ?U
      and q = ?p and base = "''my-post''" and ext = "''html''"]
  have "find (\<lambda>e. e ''rel'' = Some ''alternate'') (atom_link published_post) = Some ?e
      \<and> ?e ''href'' = Some ?U \<and> ?U \<noteq> []"
    by (simp add: published_post_def)
  with T have r: "resolve_post ?lib demo_options published_post [] =
        \<lparr>slug = path_stem (Path (urlparse_path ?lib ?U)),
         post_folder =
           joinpath (joinpath (joinpath (Path (output_folder demo_options)) ''post'')
                       (format_zero_pad 4 (year (parse ?lib (atom_published published_post)))))
             (published_date (parse ?lib (atom_published published_post)) @ ''-''
                @ path_stem (Path (urlparse_path ?lib ?U))),
         aliases = [path_str (Path (urlparse_path ?lib ?U))],
         url_map_out =
           [] @ [(?U, new_root demo_options @ path_str (path_parent (Path (urlparse_path ?lib ?U)))
                          @ ''/'' @ path_stem (Path (urlparse_path ?lib ?U)))]\<rparr>"
    and u: "snd (snd (process_post ?lib demo_options published_post fs_empty [])) =
           [] @ [(?U, new_root demo_options @ path_str (path_parent (Path (urlparse_path ?lib ?U)))
                          @ ''/'' @ path_stem (Path (urlparse_path ?lib ?U)))]"
    by blast+
  have "path_name ?p = ''my-post'' @ ''.'' @ ''html'' \<and> ''my-post'' \<noteq> [] \<and> ''html'' \<noteq> []
      \<and> CHR ''.'' \<notin> set ''html''"
    by (simp add: path_name_def)
  with T have stem: "path_stem ?p = ''my-post''"
    by blast
  have "CHR ''.'' \<notin> set (path_name (PurePath ''/'' [''a.b'', ''notes'']))"
    by (simp add: path_name_def)
  with published_post_slug_folder_url_map [where q = "PurePath ''/'' [''a.b'', ''notes'']"]
  have "path_stem (PurePath ''/'' [''a.b'', ''notes'']) = path_name (PurePath ''/'' [''a.b'', ''notes''])"
    by blast
  then have nodot: "path_stem (PurePath ''/'' [''a.b'', ''notes'']) = ''notes''"
    by (simp add: path_name_def)
  have l: "urlparse_path ?lib = demo_urlparse_path" "parse ?lib = demo_parse"
    "output_folder demo_options = ''out''" "new_root demo_options = ''/blog''"
    "atom_published published_post = ''2019-03-09T08:30:00.000+01:00''"
    by (simp_all add: demo_library_def demo_options_def published_post_def)
  have ps: "path_str ?p = ''/2019/03/my-post.html''" "path_str (path_parent ?p) = ''/2019/03''"
    by (simp_all add: path_str_def path_parent_def)
  have r': "resolve_post ?lib demo_options published_post [] =
       \<lparr>slug = ''my-post'',
        post_folder = PurePath [] [''out'', ''post'', ''2019'', ''2019-03-09-my-post''],
        aliases = [''/2019/03/my-post.html''],
        url_map_out = [(?U, ''/blog/2019/03/my-post'')]\<rparr>"
    by (simp add: r l urlparse_my_post Path_my_post stem ps published_date_demo2 year_demo2 published_folder)
  have u': "snd (snd (process_post ?lib demo_options published_post fs_empty [])) = [(?U, ''/blog/2019/03/my-post'')]"
    by (simp add: u l urlparse_my_post Path_my_post stem ps)
  from r' u' nodot show ?thesis by blast
qed

text \<open>
  Claim C3 as it is stated fails for a post whose alternate link has an empty \<open>href\<close>:
  the slug comes from the title, the folder is under \<open>draft_posts\<close>, and nothing is
  appended to the URL map.
\<close>

theorem alternate_link_empty_href_not_published_counterexample:
  "hd (atom_link alternate_empty_href_post) ''rel'' = Some ''alternate''
   \<and> hd (atom_link alternate_empty_href_post) ''href'' = Some []
   \<and> resolve_post (demo_library [] empty_soup) demo_options alternate_empty_href_post [] =
       \<lparr>slug = ''hello-world'',
        post_folder = PurePath [] [''out'', ''draft_posts'', ''2019-03-07-hello-world''],
        aliases = [], url_map_out = []\<rparr>
   \<and> snd (snd (process_post (demo_library [] empty_soup) demo_options alternate_empty_href_post fs_empty []))
       = []"
proof -
  let ?lib = "demo_library [] empty_soup"
  have a: "hd (atom_link alternate_empty_href_post) ''rel'' = Some ''alternate''"
    "hd (atom_link alternate_empty_href_post) ''href'' = Some []"
    by (simp_all add: alternate_empty_href_post_def)
  have d: "is_draft alternate_empty_href_post"
    by (simp add: is_draft_def published_url_def alternate_empty_href_post_def)
  have "atom_title alternate_empty_href_post = ''Hello World''"
    "atom_published alternate_empty_href_post = ''2019-03-07T10:00:00.000+01:00''"
    by (simp_all add: alternate_empty_href_post_def draft_post_def)
  with d have r: "resolve_post ?lib demo_options alternate_empty_href_post [] =
       \<lparr>slug = ''hello-world'',
        post_folder = PurePath [] [''out'', ''draft_posts'', ''2019-03-07-hello-world''],
        aliases = [], url_map_out = []\<rparr>"
    by (rule resolve_hello_draft)
  then have "snd (snd (process_post ?lib demo_options alternate_empty_href_post fs_empty [])) = []"
    by (simp add: process_post_url_map)
  with a r show ?thesis by blast
qed

subsection \<open>C4: the size token of the image URL\<close>

text \<open>
  Claim C4. The candidate URL of an image is its \<open>src\<close>, rewritten first for the pair
  \<open>height\<close> / \<open>data-original-height\<close> and then for the pair \<open>width\<close> /
  \<open>data-original-width\<close>. For a pair of which the image carries both attributes, the
  size token \<open>/s<rendered>/\<close> becomes \<open>/s<original>/\<close> (at its first occurrence, and by
  the same rule in the rest of the URL); for a pair of which an attribute is missing the
  URL is unchanged; an image with no \<open>src\<close> is skipped: the document and the file system
  stay as they are.
\<close>

theorem get_src_resize_rewrites_size_token:
  "(img_attrs ''src'' = Some src \<longrightarrow>
      get_src_resize_if_needed img_attrs =
        Inr (resize_if_needed img_attrs
               (resize_if_needed img_attrs src ''height'' ''data-original-height'')
               ''width'' ''data-original-width''))
   \<and> (img_attrs size_name = Some sz \<and> img_attrs orig_size_name = Some osz \<and>
        (\<forall>k<length pre. take (length (''/s'' @ sz @ ''/'')) (drop k (pre @ ''/s'' @ sz @ ''/''))
                           \<noteq> ''/s'' @ sz @ ''/'') \<longrightarrow>
      resize_if_needed img_attrs (pre @ ''/s'' @ sz @ ''/'' @ post) size_name orig_size_name =
        pre @ ''/s'' @ osz @ ''/'' @ resize_if_needed img_attrs post size_name orig_size_name)
   \<and> (img_attrs size_name = None \<or> img_attrs orig_size_name = None \<longrightarrow>
        resize_if_needed img_attrs s size_name orig_size_name = s)
   \<and> (nodes html img = Some (Tag nm img_attrs par cs) \<and> img_attrs ''src'' = None \<longrightarrow>
        replace_image lib folder img html fs = (Inr html, fs))"
proof (intro conjI impI)
  assume "img_attrs ''src'' = Some src"
  then show "get_src_resize_if_needed img_attrs =
        Inr (resize_if_needed img_attrs
               (resize_if_needed img_attrs src ''height'' ''data-original-height'')
               ''width'' ''data-original-width'')"
    by (rule get_src_resize_Some)
next
  let ?old = "''/s'' @ sz @ ''/''"
  assume a: "img_attrs size_name = Some sz \<and> img_attrs orig_size_name = Some osz \<and>
        (\<forall>k<length pre. take (length ?old) (drop k (pre @ ?old)) \<noteq> ?old)"
  have "str_replace ?old (''/s'' @ osz @ ''/'') (pre @ ?old @ post)
          = pre @ (''/s'' @ osz @ ''/'') @ str_replace ?old (''/s'' @ osz @ ''/'') post"
    using a by (intro str_replace_first) simp_all
  with a show "resize_if_needed img_attrs (pre @ ''/s'' @ sz @ ''/'' @ post) size_name orig_size_name =
        pre @ ''/s'' @ osz @ ''/'' @ resize_if_needed img_attrs post size_name orig_size_name"
    by (simp add: resize_if_needed_present)
next
  assume "img_attrs size_name = None \<or> img_attrs orig_size_name = None"
  then show "resize_if_needed img_attrs s size_name orig_size_name = s"
    by (rule resize_if_needed_absent)
next
  assume "nodes html img = Some (Tag nm img_attrs par cs) \<and> img_attrs ''src'' = None"
  then show "replace_image lib folder img html fs = (Inr html, fs)"
    by (simp add: replace_image_no_src)
qed

text \<open>
  The example of the specification: \<open>height="320"\<close>, \<open>data-original-height="1600"\<close> and
  \<open>src=".../s320/img.jpg"\<close> give \<open>.../s1600/img.jpg\<close>; and an image without \<open>src\<close>.
\<close>

theorem get_src_resize_rewrites_size_token_witness:
  "get_src_resize_if_needed resized_img_attrs = Inr ''http://x/s1600/img.jpg''
   \<and> replace_image (demo_library [] empty_soup) (Path ''out'') 1 no_src_soup fs_out
       = (Inr no_src_soup, fs_out)"
proof -
  have h: "get_src_resize_if_needed resized_img_attrs =
        Inr (resize_if_needed resized_img_attrs
               (resize_if_needed resized_img_attrs ''http://x/s320/img.jpg'' ''height'' ''data-original-height'')
               ''width'' ''data-original-width'')"
    and r: "resize_if_needed resized_img_attrs (''http://x'' @ ''/s'' @ ''320'' @ ''/'' @ ''img.jpg'')
              ''height'' ''data-original-height'' =
            ''http://x'' @ ''/s'' @ ''1600'' @ ''/''
              @ resize_if_needed resized_img_attrs ''img.jpg'' ''height'' ''data-original-height''"
    using get_src_resize_rewrites_size_token
      [where img_attrs = resized_img_attrs and src = "''http://x/s320/img.jpg''"
         and size_name = "''height''" and orig_size_name = "''data-original-height''"
         and sz = "''320''" and osz = "''1600''" and pre = "''http://x''" and post = "''img.jpg''"]
    by (simp_all add: resized_img_attrs_def All_less_Suc eval_nat_numeral)
  have w: "resize_if_needed resized_img_attrs ''http://x/s1600/img.jpg'' ''width'' ''data-original-width''
             = ''http://x/s1600/img.jpg''"
    and k: "replace_image (demo_library [] empty_soup) (Path ''out'') 1 no_src_soup fs_out
             = (Inr no_src_soup, fs_out)"
    using get_src_resize_rewrites_size_token
      [where img_attrs = resized_img_attrs and size_name = "''width''"
         and orig_size_name = "''data-original-width''" and s = "''http://x/s1600/img.jpg''"]
      get_src_resize_rewrites_size_token
      [where img_attrs = "[''alt'' \<mapsto> ''x'']" and html = no_src_soup and img = 1
         and nm = "''img''" and par = "Some 0" and cs = "[]"
         and lib = "demo_library [] empty_soup" and folder = "Path ''out''" and fs = fs_out]
    by (simp_all add: resized_img_attrs_def no_src_soup_def)
  have t: "resize_if_needed resized_img_attrs ''img.jpg'' ''height'' ''data-original-height'' = ''img.jpg''"
    by (simp add: resize_if_needed_def resized_img_attrs_def str_replace.simps)
  from h r w k t show ?thesis by simp
qed

subsection \<open>C5: a link around two images\<close>

text \<open>
  Claim C5 does not hold of the code for the second image inside one link. For
  \<open><a href="http://h.example/full.png"><img src=".../t1.png"><img src=".../t2.png"></a>\<close>
  the first image replaces the link by a new \<open>img\<close>; the second image still has the
  link as its parent, fetches the target of the link again, and then
  \<open>replace_with\<close> raises \<open>ValueError\<close>, because the link is no longer part of the tree.
\<close>

theorem second_image_in_link_raises:
  "replace_images_with_downloaded (demo_library link_web empty_soup) link_two_imgs_soup
       (Path ''out'') fs_out
     = (Inl (ValueError ''Cannot replace one element with another when the element to be replaced is not part of a tree.''),
        fs_out\<lparr>files := [PurePath [] [''out'', ''full.png''] \<mapsto> ''full'']\<rparr>)"
proof -
  let ?lib = "demo_library link_web empty_soup"
  let ?F = "PurePath [] [''out'']"
  let ?P = "PurePath [] [''out'', ''full.png'']"
  let ?L = "''http://h.example/full.png''"
  let ?A = "''http://h.example/t1.png''"
  let ?B = "''http://h.example/t2.png''"
  let ?fs1 = "fs_out\<lparr>files := [?P \<mapsto> ''full'']\<rparr>"
  have jp: "joinpath ?F ''full.png'' = ?P"
    by (simp add: joinpath_def Path_def splitroot_def Let_def)
  have re: "re_sub_size_h ?L = ?L"
    by (simp add: re_sub_size_h.simps match_size_h_def)
  have nm: "path_name (Path (urlparse_path ?lib ?L)) = ''full.png''"
    by (simp add: demo_library_def demo_urlparse_path_def Path_def splitroot_def path_name_def Let_def)
  have g: "requests_get ?lib ?L = Inr \<lparr>status_code = 200, content = ''full''\<rparr>"
    by (simp add: demo_library_def demo_requests_get_def link_web_def)
  have dl1: "download_and_save_image ?lib ?L ?P fs_out = (Inr (), ?fs1)"
    using download_out [OF g, of "''full.png''" Map.empty] by (simp add: fs_out_files)
  have dl2: "download_and_save_image ?lib ?L ?P ?fs1 = (Inr (), ?fs1)"
    using download_out [OF g, of "''full.png''" "[?P \<mapsto> ''full'']"] by simp
  have extA: "has_identical_extension ?A ?L"
    by (simp add: has_identical_extension_def Let_def)
  have extB: "has_identical_extension ?B ?L"
    by (simp add: has_identical_extension_def Let_def)
  have n2: "nodes link_two_imgs_soup 2 = Some (Tag ''img'' [''src'' \<mapsto> ?A] (Some 1) [])"
    and n1: "nodes link_two_imgs_soup 1 = Some (Tag ''a'' [''href'' \<mapsto> ?L] (Some 0) [2, 3])"
    by (simp_all add: link_two_imgs_soup_def)
  have sel1: "select_target link_two_imgs_soup 2
      (resize_if_needed [''src'' \<mapsto> ?A] (resize_if_needed [''src'' \<mapsto> ?A] ?A ''height'' ''data-original-height'')
        ''width'' ''data-original-width'') = Inr (1, ?L)"
    by (simp add: resize_if_needed_absent select_target_link [OF n2 n1] extA)
  obtain h1 where s1: "replace_image ?lib ?F 2 link_two_imgs_soup fs_out = (Inr h1, ?fs1)"
    and h1_3: "nodes h1 3 = Some (Tag ''img'' [''src'' \<mapsto> ?B] (Some 1) [])"
    and h1_1: "nodes h1 1 = Some (Tag ''a'' [''href'' \<mapsto> ?L] None [2, 3])"
    and h1_n: "next_id h1 = 5"
  proof -
    have "\<exists>h1. replace_image ?lib ?F 2 link_two_imgs_soup fs_out = (Inr h1, ?fs1)
      \<and> nodes h1 3 = Some (Tag ''img'' [''src'' \<mapsto> ?B] (Some 1) [])
      \<and> nodes h1 1 = Some (Tag ''a'' [''href'' \<mapsto> ?L] None [2, 3])
      \<and> next_id h1 = 5"
      by (subst replace_image_src [OF n2 _ sel1 re nm])
         (simp_all add: jp dl1 replace_with_def link_two_imgs_soup_def set_parent_def)
    then show ?thesis using that by blast
  qed
  have sel2: "select_target h1 3
      (resize_if_needed [''src'' \<mapsto> ?B] (resize_if_needed [''src'' \<mapsto> ?B] ?B ''height'' ''data-original-height'')
        ''width'' ''data-original-width'') = Inr (1, ?L)"
    by (simp add: resize_if_needed_absent select_target_link [OF h1_3 h1_1] extB)
  have s2: "replace_image ?lib ?F 3 h1 ?fs1
        = (Inl (ValueError ''Cannot replace one element with another when the element to be replaced is not part of a tree.''), ?fs1)"
    by (subst replace_image_src [OF h1_3 _ sel2 re nm])
       (simp_all add: jp dl2 replace_with_def h1_3 h1_1 [unfolded One_nat_def] h1_n)
  have "replace_images ?lib ?F [2, 3] link_two_imgs_soup fs_out
      = (Inl (ValueError ''Cannot replace one element with another when the element to be replaced is not part of a tree.''), ?fs1)"
    by (simp only: replace_images.simps s1 s2 prod.case sum.case)
  then show ?thesis
    by (simp only: replace_images_with_downloaded_def find_all_link_two_imgs Path_out)
qed

subsection \<open>C6: the wrapper endpoint \<open>/s<N>-h/\<close>\<close>

text \<open>
  Claim C6. For an image with a \<open>src\<close>, let \<open>url\<close> be the URL chosen by the resize and
  parent-link steps (\<open>select_target\<close>). The step fetches \<open>re_sub_size_h url\<close>, writes
  the bytes to the folder under the final path segment of that normalised URL, and gives
  the new \<open>img\<close> element that same name as its \<open>src\<close>. The substitution turns a
  segment \<open>/s<N>-h/\<close> (with one digit or more) into \<open>/s<N>/\<close>, copies the text before
  it in which no match starts, and goes on behind it.
\<close>

theorem normalised_url_names_the_file:
  "(nodes html img = Some (Tag nm img_attrs par cs) \<and> img_attrs ''src'' = Some src \<and>
    select_target html img
      (resize_if_needed img_attrs (resize_if_needed img_attrs src ''height'' ''data-original-height'')
         ''width'' ''data-original-width'') = Inr (target_tag, url) \<longrightarrow>
    replace_image lib folder img html fs =
      (case download_and_save_image lib (re_sub_size_h url)
              (joinpath folder (path_name (Path (urlparse_path lib (re_sub_size_h url))))) fs of
         (Inl e, fs') \<Rightarrow> (Inl e, fs')
       | (Inr u, fs') \<Rightarrow>
           (replace_with target_tag (next_id html)
              (html\<lparr>nodes := (nodes html)(next_id html \<mapsto>
                       Tag ''img'' [''src'' \<mapsto> path_name (Path (urlparse_path lib (re_sub_size_h url)))]
                         None []),
                    next_id := Suc (next_id html)\<rparr>), fs')))
   \<and> (ds \<noteq> [] \<and> list_all isdigit ds \<and>
        (\<forall>k<length pre. match_size_h (drop k (pre @ ''/s'' @ ds @ ''-h/'' @ post)) = None) \<longrightarrow>
        re_sub_size_h (pre @ ''/s'' @ ds @ ''-h/'' @ post) = pre @ ''/s'' @ ds @ ''/'' @ re_sub_size_h post)"
proof (intro conjI impI)
  assume "nodes html img = Some (Tag nm img_attrs par cs) \<and> img_attrs ''src'' = Some src \<and>
    select_target html img
      (resize_if_needed img_attrs (resize_if_needed img_attrs src ''height'' ''data-original-height'')
         ''width'' ''data-original-width'') = Inr (target_tag, url)"
  then have n: "nodes html img = Some (Tag nm img_attrs par cs)"
    and s: "img_attrs ''src'' = Some src"
    and t: "select_target html img
      (resize_if_needed img_attrs (resize_if_needed img_attrs src ''height'' ''data-original-height'')
         ''width'' ''data-original-width'') = Inr (target_tag, url)"
    by simp_all
  show "replace_image lib folder img html fs =
      (case download_and_save_image lib (re_sub_size_h url)
              (joinpath folder (path_name (Path (urlparse_path lib (re_sub_size_h url))))) fs of
         (Inl e, fs') \<Rightarrow> (Inl e, fs')
       | (Inr u, fs') \<Rightarrow>
           (replace_with target_tag (next_id html)
              (html\<lparr>nodes := (nodes html)(next_id html \<mapsto>
                       Tag ''img'' [''src'' \<mapsto> path_name (Path (urlparse_path lib (re_sub_size_h url)))]
                         None []),
                    next_id := Suc (next_id html)\<rparr>), fs'))"
    by (rule replace_image_src [OF n s t refl refl])
next
  assume a: "ds \<noteq> [] \<and> list_all isdigit ds \<and>
        (\<forall>k<length pre. match_size_h (drop k (pre @ ''/s'' @ ds @ ''-h/'' @ post)) = None)"
  then have "re_sub_size_h (pre @ (''/s'' @ ds @ ''-h/'' @ post)) = pre @ re_sub_size_h (''/s'' @ ds @ ''-h/'' @ post)"
    by (intro re_sub_size_h_skip) simp
  also have "re_sub_size_h (''/s'' @ ds @ ''-h/'' @ post) = ''/s'' @ ds @ ''/'' @ re_sub_size_h post"
    using a by (intro re_sub_size_h_here) simp_all
  finally show "re_sub_size_h (pre @ ''/s'' @ ds @ ''-h/'' @ post) = pre @ ''/s'' @ ds @ ''/'' @ re_sub_size_h post"
    by simp
qed

text \<open>
  The rewriting of \<open>http://x/s1600-h/img.jpg\<close>, and the step for an image with this
  \<open>src\<close>: the file \<open>out/img.jpg\<close> holds the bytes served at \<open>http://x/s1600/img.jpg\<close>.
\<close>

theorem normalised_url_names_the_file_witness:
  "re_sub_size_h ''http://x/s1600-h/img.jpg'' = ''http://x/s1600/img.jpg''
   \<and> (\<exists>html'. replace_image (demo_library wrapper_web empty_soup) (Path ''out'') 1 wrapper_soup fs_out
        = (Inr html', fs_out\<lparr>files := [PurePath [] [''out'', ''img.jpg''] \<mapsto> ''jpeg'']\<rparr>)
        \<and> nodes html' 2 = Some (Tag ''img'' [''src'' \<mapsto> ''img.jpg''] (Some 0) []))"
proof -
  let ?lib = "demo_library wrapper_web empty_soup"
  let ?S = "''http://x/s1600-h/img.jpg''"
  let ?N = "''http://x/s1600/img.jpg''"
  let ?P = "PurePath [] [''out'', ''img.jpg'']"
  have tail: "re_sub_size_h ''img.jpg'' = ''img.jpg''"
    by (simp add: re_sub_size_h.simps match_size_h_def)
  have "''1600'' \<noteq> [] \<and> list_all isdigit ''1600'' \<and>
        (\<forall>k<length ''http://x''. match_size_h (drop k (''http://x'' @ ''/s'' @ ''1600'' @ ''-h/'' @ ''img.jpg'')) = None)"
    by (simp add: isdigit_def digit_chars_def All_less_Suc eval_nat_numeral match_size_h_def)
  with normalised_url_names_the_file [where ds = "''1600''" and pre = "''http://x''" and post = "''img.jpg''"]
  have "re_sub_size_h (''http://x'' @ ''/s'' @ ''1600'' @ ''-h/'' @ ''img.jpg'')
          = ''http://x'' @ ''/s'' @ ''1600'' @ ''/'' @ re_sub_size_h ''img.jpg''"
    by blast
  then have re: "re_sub_size_h ?S = ?N"
    by (simp add: tail)
  have n: "nodes wrapper_soup 1 = Some (Tag ''img'' [''src'' \<mapsto> ?S] (Some 0) [])"
    by (simp add: wrapper_soup_def)
  have rs: "resize_if_needed [''src'' \<mapsto> ?S] (resize_if_needed [''src'' \<mapsto> ?S] ?S ''height'' ''data-original-height'')
        ''width'' ''data-original-width'' = ?S"
    by (simp add: resize_if_needed_absent)
  have sel: "select_target wrapper_soup 1 ?S = Inr (1, ?S)"
    by (simp add: select_target_def find_parent_def wrapper_soup_def)
  have nm: "path_name (Path (urlparse_path ?lib ?N)) = ''img.jpg''"
    by (simp add: demo_library_def demo_urlparse_path_def Path_def splitroot_def path_name_def Let_def)
  have jp: "joinpath (Path ''out'') ''img.jpg'' = ?P"
    by (simp add: joinpath_def Path_def splitroot_def Let_def)
  have np: "normpath ?P = ?P"
    by (simp add: normpath_def step_dotdot_def)
  have dl: "download_and_save_image ?lib ?N ?P fs_out = (Inr (), fs_out\<lparr>files := [?P \<mapsto> ''jpeg'']\<rparr>)"
    by (subst download_ok [where r = "\<lparr>status_code = 200, content = ''jpeg''\<rparr>"])
       (simp_all add: demo_library_def demo_requests_get_def wrapper_web_def np is_dir_def
          path_parent_def fs_out_def normpath_def step_dotdot_def)
  from n rs sel
  have "nodes wrapper_soup 1 = Some (Tag ''img'' [''src'' \<mapsto> ?S] (Some 0) []) \<and> [''src'' \<mapsto> ?S] ''src'' = Some ?S \<and>
    select_target wrapper_soup 1
      (resize_if_needed [''src'' \<mapsto> ?S] (resize_if_needed [''src'' \<mapsto> ?S] ?S ''height'' ''data-original-height'')
         ''width'' ''data-original-width'') = Inr (1, ?S)"
    by simp
  with normalised_url_names_the_file [where html = wrapper_soup and img = 1 and nm = "''img''"
      and img_attrs = "[''src'' \<mapsto> ?S]" and par = "Some 0" and cs = "[]" and src = ?S
      and target_tag = 1 and url = ?S and lib = ?lib and folder = "Path ''out''" and fs = fs_out]
  have "replace_image ?lib (Path ''out'') 1 wrapper_soup fs_out =
      (case download_and_save_image ?lib (re_sub_size_h ?S)
              (joinpath (Path ''out'') (path_name (Path (urlparse_path ?lib (re_sub_size_h ?S))))) fs_out of
         (Inl e, fs') \<Rightarrow> (Inl e, fs')
       | (Inr u, fs') \<Rightarrow>
           (replace_with 1 (next_id wrapper_soup)
              (wrapper_soup\<lparr>nodes := (nodes wrapper_soup)(next_id wrapper_soup \<mapsto>
                       Tag ''img'' [''src'' \<mapsto> path_name (Path (urlparse_path ?lib (re_sub_size_h ?S)))]
                         None []),
                    next_id := Suc (next_id wrapper_soup)\<rparr>), fs'))"
    by blast
  then have "\<exists>html'. replace_image ?lib (Path ''out'') 1 wrapper_soup fs_out
        = (Inr html', fs_out\<lparr>files := [?P \<mapsto> ''jpeg'']\<rparr>)
        \<and> nodes html' 2 = Some (Tag ''img'' [''src'' \<mapsto> ''img.jpg''] (Some 0) [])"
    by (simp add: re nm jp dl replace_with_def wrapper_soup_def set_parent_def)
  with re show ?thesis by blast
qed

subsection \<open>C7: a destination folder that exists\<close>

text \<open>
  Claim C7. If the destination folder of a post exists when the post is processed,
  \<open>process_post\<close> raises \<open>FileExistsError\<close> and the file system is as it was: nothing
  of this post is written; the loop over the posts stops there. In particular, when a
  post has been processed and a later post resolves to the same folder (the posts in
  between having been processed), the run ends at the later post with
  \<open>FileExistsError\<close>, and the file system is the one the earlier posts left. \<open>main\<close>
  returns that error and that file system: the URL map is not written.
\<close>

theorem existing_folder_aborts_run:
  "(path_exists fs (post_folder (resolve_post lib opts post um)) \<longrightarrow>
      process_post lib opts post fs um =
        (Inl (FileExistsError (path_str (post_folder (resolve_post lib opts post um)))), fs,
         url_map_out (resolve_post lib opts post um))
      \<and> process_posts lib opts (post # posts) fs um =
        (Inl (FileExistsError (path_str (post_folder (resolve_post lib opts post um)))), fs,
         url_map_out (resolve_post lib opts post um)))
   \<and> (process_post lib opts first fs um = (Inr (), fs_a, um_a)
       \<and> process_posts lib opts between fs_a um_a = (Inr (), fs_b, um_b)
       \<and> normpath (post_folder (resolve_post lib opts second um_b))
           = normpath (post_folder (resolve_post lib opts first um)) \<longrightarrow>
      process_posts lib opts (first # between @ second # later) fs um =
        (Inl (FileExistsError (path_str (post_folder (resolve_post lib opts second um_b)))), fs_b,
         url_map_out (resolve_post lib opts second um_b)))
   \<and> (get_post_entries xml_root = Inr posts \<and> num_posts opts = None
       \<and> process_posts lib opts posts fs [] = (Inl e, fs', um') \<longrightarrow>
      main lib opts xml_root fs = (Inl e, fs'))"
proof (intro conjI impI)
  assume "path_exists fs (post_folder (resolve_post lib opts post um))"
  then have p: "process_post lib opts post fs um =
        (Inl (FileExistsError (path_str (post_folder (resolve_post lib opts post um)))), fs,
         url_map_out (resolve_post lib opts post um))"
    by (rule process_post_exists)
  then show "process_post lib opts post fs um =
        (Inl (FileExistsError (path_str (post_folder (resolve_post lib opts post um)))), fs,
         url_map_out (resolve_post lib opts post um))" .
  from p show "process_posts lib opts (post # posts) fs um =
        (Inl (FileExistsError (path_str (post_folder (resolve_post lib opts post um)))), fs,
         url_map_out (resolve_post lib opts post um))"
    by simp
next
  assume a: "process_post lib opts first fs um = (Inr (), fs_a, um_a)
       \<and> process_posts lib opts between fs_a um_a = (Inr (), fs_b, um_b)
       \<and> normpath (post_folder (resolve_post lib opts second um_b))
           = normpath (post_folder (resolve_post lib opts first um))"
  then have p1: "process_post lib opts first fs um = (Inr (), fs_a, um_a)"
    and pb: "process_posts lib opts between fs_a um_a = (Inr (), fs_b, um_b)"
    and same: "normpath (post_folder (resolve_post lib opts second um_b))
           = normpath (post_folder (resolve_post lib opts first um))"
    by simp_all
  have "normpath (post_folder (resolve_post lib opts first um)) \<in> dirs fs_a"
    using process_post_dirs(2) [OF p1] by simp
  moreover have "dirs fs_a \<subseteq> dirs fs_b"
    using pb by (rule process_posts_dirs)
  ultimately have "normpath (post_folder (resolve_post lib opts second um_b)) \<in> dirs fs_b"
    using same by auto
  then have "path_exists fs_b (post_folder (resolve_post lib opts second um_b))"
    by (rule path_exists_dirs)
  then have p2: "process_post lib opts second fs_b um_b =
      (Inl (FileExistsError (path_str (post_folder (resolve_post lib opts second um_b)))), fs_b,
       url_map_out (resolve_post lib opts second um_b))"
    by (rule process_post_exists)
  have "process_posts lib opts (first # between @ second # later) fs um
      = process_posts lib opts (between @ second # later) fs_a um_a"
    using p1 by simp
  also have "\<dots> = process_posts lib opts (second # later) fs_b um_b"
    using pb by (rule process_posts_append)
  also have "\<dots> = (Inl (FileExistsError (path_str (post_folder (resolve_post lib opts second um_b)))), fs_b,
       url_map_out (resolve_post lib opts second um_b))"
    using p2 by simp
  finally show "process_posts lib opts (first # between @ second # later) fs um =
        (Inl (FileExistsError (path_str (post_folder (resolve_post lib opts second um_b)))), fs_b,
         url_map_out (resolve_post lib opts second um_b))" .
next
  assume "get_post_entries xml_root = Inr posts \<and> num_posts opts = None
       \<and> process_posts lib opts posts fs [] = (Inl e, fs', um')"
  then show "main lib opts xml_root fs = (Inl e, fs')"
    by (simp add: main_def)
qed

text \<open>
  A draft whose folder exists; and the same draft twice in one export: the second one
  ends the run, and the file system is the one the first one left.
\<close>

theorem existing_folder_aborts_run_witness:
  "process_post (demo_library [] empty_soup) demo_options draft_post
       \<lparr>dirs = {PurePath [] [''out'', ''draft_posts'', ''2019-03-07-hello-world'']}, files = Map.empty\<rparr> []
     = (Inl (FileExistsError ''out/draft_posts/2019-03-07-hello-world''),
        \<lparr>dirs = {PurePath [] [''out'', ''draft_posts'', ''2019-03-07-hello-world'']}, files = Map.empty\<rparr>, [])
   \<and> fst (process_post (demo_library [] empty_soup) demo_options draft_post fs_empty []) = Inr ()
   \<and> process_posts (demo_library [] empty_soup) demo_options [draft_post, draft_post] fs_empty []
     = (Inl (FileExistsError ''out/draft_posts/2019-03-07-hello-world''),
        snd (process_post (demo_library [] empty_soup) demo_options draft_post fs_empty []))
   \<and> main (demo_library [] empty_soup) demo_options [draft_post, draft_post] fs_empty
     = (Inl (FileExistsError ''out/draft_posts/2019-03-07-hello-world''),
        fst (snd (process_post (demo_library [] empty_soup) demo_options draft_post fs_empty [])))"
proof -
  let ?lib = "demo_library [] empty_soup"
  let ?F = "PurePath [] [''out'', ''draft_posts'', ''2019-03-07-hello-world'']"
  let ?E = "Inl (FileExistsError ''out/draft_posts/2019-03-07-hello-world'') :: error + unit"
  let ?fs = "\<lparr>dirs = {?F}, files = Map.empty\<rparr>"
  have F: "post_folder (resolve_post ?lib demo_options draft_post []) = ?F"
    and U: "url_map_out (resolve_post ?lib demo_options draft_post []) = []"
    by (simp_all add: resolve_draft_post)
  have S: "path_str ?F = ''out/draft_posts/2019-03-07-hello-world''"
    by (simp add: path_str_def)
  have "path_exists ?fs (post_folder (resolve_post ?lib demo_options draft_post []))"
    by (simp add: F path_exists_def is_dir_def normpath_def step_dotdot_def)
  with existing_folder_aborts_run [where lib = ?lib and opts = demo_options and post = draft_post
      and fs = ?fs and um = "[]"]
  have "process_post ?lib demo_options draft_post ?fs [] =
        (Inl (FileExistsError (path_str (post_folder (resolve_post ?lib demo_options draft_post [])))), ?fs,
         url_map_out (resolve_post ?lib demo_options draft_post []))"
    by blast
  then have one: "process_post ?lib demo_options draft_post ?fs [] = (?E, ?fs, [])"
    by (simp only: F U S)
  obtain fs1 where ok: "process_post ?lib demo_options draft_post fs_empty [] = (Inr (), fs1, [])"
    using process_draft_post_ok [of "[]"] by blast
  have "process_post ?lib demo_options draft_post fs_empty [] = (Inr (), fs1, [])
       \<and> process_posts ?lib demo_options [] fs1 [] = (Inr (), fs1, [])
       \<and> normpath (post_folder (resolve_post ?lib demo_options draft_post []))
           = normpath (post_folder (resolve_post ?lib demo_options draft_post []))"
    using ok by simp
  with existing_folder_aborts_run [where lib = ?lib and opts = demo_options and first = draft_post
      and second = draft_post and between = "[]" and later = "[]" and fs = fs_empty and um = "[]"
      and fs_a = fs1 and fs_b = fs1 and um_a = "[]" and um_b = "[]"]
  have "process_posts ?lib demo_options (draft_post # [] @ draft_post # []) fs_empty [] =
        (Inl (FileExistsError (path_str (post_folder (resolve_post ?lib demo_options draft_post [])))), fs1,
         url_map_out (resolve_post ?lib demo_options draft_post []))"
    by blast
  then have two: "process_posts ?lib demo_options [draft_post, draft_post] fs_empty [] = (?E, fs1, [])"
    by (simp only: F U S append_Nil)
  have "get_post_entries [draft_post, draft_post] = Inr [draft_post, draft_post]
       \<and> num_posts demo_options = None
       \<and> process_posts ?lib demo_options [draft_post, draft_post] fs_empty [] = (?E, fs1, [])"
  proof -
    have "num_posts demo_options = None"
      by (simp add: demo_options_def)
    with two get_post_entries_two_drafts show ?thesis
      by (intro conjI)
  qed
  with existing_folder_aborts_run [where lib = ?lib and opts = demo_options
      and xml_root = "[draft_post, draft_post]" and posts = "[draft_post, draft_post]"
      and fs = fs_empty and e = "FileExistsError ''out/draft_posts/2019-03-07-hello-world''"
      and fs' = fs1 and um' = "[]"]
  have three: "main ?lib demo_options [draft_post, draft_post] fs_empty = (?E, fs1)"
    by blast
  from ok have "fst (process_post ?lib demo_options draft_post fs_empty []) = Inr ()"
    and "snd (process_post ?lib demo_options draft_post fs_empty []) = (fs1, [])"
    and "fst (snd (process_post ?lib demo_options draft_post fs_empty [])) = fs1"
    by simp_all
  with one two three show ?thesis by (simp only:)
qed

subsection \<open>C8: the status of the fetch\<close>

text \<open>
  Claim C8, as the code has it. Given the response of the HTTP fetch,
  \<open>download_and_save_image\<close> raises its download error if and only if the status code is
  not 200 (every other code, also another code of the 2xx class, is an error); the message
  is built from the URL and the status code; the file system is left as it was. With
  status 200 the outcome is that of the single write of the response bytes to the given
  path, which succeeds when the path is not a directory and its parent is one. The fetch
  is made once: there is no second attempt.
\<close>

theorem download_raises_iff_status_not_200:
  "requests_get lib image_src = Inr response \<longrightarrow>
     ((\<exists>msg. fst (download_and_save_image lib image_src fullimg_path fs) = Inl (Exception msg))
        \<longleftrightarrow> status_code response \<noteq> 200)
   \<and> (status_code response \<noteq> 200 \<longrightarrow>
        download_and_save_image lib image_src fullimg_path fs =
          (Inl (Exception (''Can'' @ [CHR 0x27] @ ''t download image '' @ image_src
                           @ '' ; Status code '' @ str_nat (status_code response))), fs))
   \<and> (status_code response = 200 \<longrightarrow>
        download_and_save_image lib image_src fullimg_path fs =
          open_write fullimg_path (content response) fs)
   \<and> (status_code response = 200 \<and> \<not> is_dir fs fullimg_path
        \<and> is_dir fs (path_parent (normpath fullimg_path)) \<longrightarrow>
        download_and_save_image lib image_src fullimg_path fs =
          (Inr (), fs\<lparr>files := (files fs)(normpath fullimg_path \<mapsto> content response)\<rparr>))"
proof (intro impI)
  assume g: "requests_get lib image_src = Inr response"
  show "((\<exists>msg. fst (download_and_save_image lib image_src fullimg_path fs) = Inl (Exception msg))
        \<longleftrightarrow> status_code response \<noteq> 200)
   \<and> (status_code response \<noteq> 200 \<longrightarrow>
        download_and_save_image lib image_src fullimg_path fs =
          (Inl (Exception (''Can'' @ [CHR 0x27] @ ''t download image '' @ image_src
                           @ '' ; Status code '' @ str_nat (status_code response))), fs))
   \<and> (status_code response = 200 \<longrightarrow>
        download_and_save_image lib image_src fullimg_path fs =
          open_write fullimg_path (content response) fs)
   \<and> (status_code response = 200 \<and> \<not> is_dir fs fullimg_path
        \<and> is_dir fs (path_parent (normpath fullimg_path)) \<longrightarrow>
        download_and_save_image lib image_src fullimg_path fs =
          (Inr (), fs\<lparr>files := (files fs)(normpath fullimg_path \<mapsto> content response)\<rparr>))"
  proof (cases "status_code response = 200")
    case True
    with g have d: "download_and_save_image lib image_src fullimg_path fs =
        open_write fullimg_path (content response) fs"
      by (simp add: download_and_save_image_def)
    show ?thesis
      using True by (simp add: d open_write_not_Exception open_write_ok)
  next
    case False
    with g show ?thesis
      by (simp add: download_and_save_image_def)
  qed
qed

text \<open>A missing image (status 404) and an image that is served (status 200).\<close>

theorem download_raises_iff_status_not_200_witness:
  "download_and_save_image (demo_library link_web empty_soup) ''http://h.example/gone.png''
       (PurePath [] [''out'', ''gone.png'']) fs_out
     = (Inl (Exception (''Can'' @ [CHR 0x27] @ ''t download image http://h.example/gone.png ; Status code 404'')), fs_out)
   \<and> download_and_save_image (demo_library link_web empty_soup) ''http://h.example/full.png''
       (PurePath [] [''out'', ''full.png'']) fs_out
     = (Inr (), fs_out\<lparr>files := [PurePath [] [''out'', ''full.png''] \<mapsto> ''full'']\<rparr>)"
proof -
  let ?lib = "demo_library link_web empty_soup"
  have g1: "requests_get ?lib ''http://h.example/gone.png'' = Inr \<lparr>status_code = 404, content = ''Not Found''\<rparr>"
    by (simp add: demo_library_def demo_requests_get_def link_web_def)
  have g2: "requests_get ?lib ''http://h.example/full.png'' = Inr \<lparr>status_code = 200, content = ''full''\<rparr>"
    by (simp add: demo_library_def demo_requests_get_def link_web_def)
  have np: "normpath (PurePath [] [''out'', ''full.png'']) = PurePath [] [''out'', ''full.png'']"
    by (simp add: normpath_def step_dotdot_def)
  have d1: "\<not> is_dir fs_out (PurePath [] [''out'', ''full.png''])"
    by (simp add: is_dir_def np fs_out_def)
  have d2: "is_dir fs_out (path_parent (PurePath [] [''out'', ''full.png'']))"
    by (simp add: is_dir_def path_parent_def normpath_def step_dotdot_def fs_out_def)
  have fe: "files fs_out = Map.empty"
    by (simp add: fs_out_def)
  from g1 download_raises_iff_status_not_200 [where lib = ?lib and image_src = "''http://h.example/gone.png''"
      and response = "\<lparr>status_code = 404, content = ''Not Found''\<rparr>"
      and fullimg_path = "PurePath [] [''out'', ''gone.png'']" and fs = fs_out]
  have "status_code \<lparr>status_code = 404, content = ''Not Found''\<rparr> \<noteq> 200 \<longrightarrow>
      download_and_save_image ?lib ''http://h.example/gone.png'' (PurePath [] [''out'', ''gone.png'']) fs_out =
        (Inl (Exception (''Can'' @ [CHR 0x27] @ ''t download image '' @ ''http://h.example/gone.png''
              @ '' ; Status code '' @ str_nat (status_code \<lparr>status_code = 404, content = ''Not Found''\<rparr>))), fs_out)"
    by blast
  then have a: "download_and_save_image ?lib ''http://h.example/gone.png'' (PurePath [] [''out'', ''gone.png'']) fs_out
     = (Inl (Exception (''Can'' @ [CHR 0x27] @ ''t download image http://h.example/gone.png ; Status code 404'')), fs_out)"
    by (simp add: str_nat_404)
  from g2 download_raises_iff_status_not_200 [where lib = ?lib and image_src = "''http://h.example/full.png''"
      and response = "\<lparr>status_code = 200, content = ''full''\<rparr>"
      and fullimg_path = "PurePath [] [''out'', ''full.png'']" and fs = fs_out]
  have "status_code \<lparr>status_code = 200, content = ''full''\<rparr> = 200
        \<and> \<not> is_dir fs_out (PurePath [] [''out'', ''full.png''])
        \<and> is_dir fs_out (path_parent (normpath (PurePath [] [''out'', ''full.png'']))) \<longrightarrow>
      download_and_save_image ?lib ''http://h.example/full.png'' (PurePath [] [''out'', ''full.png'']) fs_out =
        (Inr (), fs_out\<lparr>files := (files fs_out)(normpath (PurePath [] [''out'', ''full.png''])
            \<mapsto> content \<lparr>status_code = 200, content = ''full''\<rparr>)\<rparr>)"
    by blast
  then have b: "download_and_save_image ?lib ''http://h.example/full.png'' (PurePath [] [''out'', ''full.png'']) fs_out
     = (Inr (), fs_out\<lparr>files := [PurePath [] [''out'', ''full.png''] \<mapsto> ''full'']\<rparr>)"
    by (simp add: np d1 d2 fe)
  from a b show ?thesis by simp
qed

text \<open>
  Claim C8 as it is stated fails for a success status other than 200: status 204 is a
  success status of HTTP, and the function raises.
\<close>

theorem status_204_is_an_error_counterexample:
  "spec_success_status 204
   \<and> download_and_save_image (demo_library link_web empty_soup) ''http://h.example/empty.png''
       (PurePath [] [''out'', ''empty.png'']) fs_out
     = (Inl (Exception (''Can'' @ [CHR 0x27] @ ''t download image http://h.example/empty.png ; Status code 204'')), fs_out)"
  by (simp add: spec_success_status_def download_and_save_image_def demo_library_def
      demo_requests_get_def link_web_def str_nat_204)

subsection \<open>C9: the front matter\<close>

text \<open>
  Claim C9 is about \<open>yaml.dump\<close> and the parser that reads the block back, which are not
  part of the script: it is not settled here. What the script contributes is the
  dictionary (\<open>metadata_dict_fields\<close>) and the frame of the document: \<open>---\<close>, the
  stripped dump, \<open>---\<close>, the body (\<open>process_post_ok\<close>).
\<close>

subsection \<open>C10: an enclosing anchor without \<open>href\<close>\<close>

text \<open>
  Claim C10. Let an image with a \<open>src\<close> have as its parent an \<open>a\<close> element that has no
  \<open>href\<close>. Then the step for this image raises \<open>KeyError\<close> for \<open>href\<close> and changes
  nothing; the loop over the images stops there with that error, whatever images come
  after it (and whatever came before, if those steps returned); so does
  \<open>replace_images_with_downloaded\<close> when the image is the first of the document, and
  with it \<open>process_post\<close> and the loop over the posts: the run ends with the error, after
  the folder of the post has been created. The image is neither skipped nor fetched from
  its own URL.
\<close>

theorem anchor_without_href_aborts:
  "nodes html img = Some (Tag nm img_attrs (Some p) cs) \<and> img_attrs ''src'' = Some src
     \<and> nodes html p = Some (Tag ''a'' pattrs pp pcs) \<and> pattrs ''href'' = None \<longrightarrow>
   replace_image lib folder img html fs = (Inl (KeyError ''href''), fs)
   \<and> (replace_images lib folder pre html_before fs_before = (Inr html, fs) \<longrightarrow>
        replace_images lib folder (pre @ img # imgs) html_before fs_before = (Inl (KeyError ''href''), fs))
   \<and> (find_all html ''img'' = img # imgs \<longrightarrow>
        replace_images_with_downloaded lib html folder fs = (Inl (KeyError ''href''), fs))
   \<and> (find_all html ''img'' = img # imgs \<and> bs lib (atom_content post) = html
        \<and> folder = post_folder (resolve_post lib opts post um)
        \<and> mkdir_parents folder fs_start = Inr fs \<and> get_post_tags (atom_category post) = Inr tags \<longrightarrow>
        process_posts lib opts (post # posts) fs_start um =
          (Inl (KeyError ''href''), fs, url_map_out (resolve_post lib opts post um)))"
proof (intro impI)
  assume a: "nodes html img = Some (Tag nm img_attrs (Some p) cs) \<and> img_attrs ''src'' = Some src
     \<and> nodes html p = Some (Tag ''a'' pattrs pp pcs) \<and> pattrs ''href'' = None"
  then have n: "nodes html img = Some (Tag nm img_attrs (Some p) cs)"
    and s: "img_attrs ''src'' = Some src"
    and pn: "nodes html p = Some (Tag ''a'' pattrs pp pcs)"
    and ph: "pattrs ''href'' = None"
    by simp_all
  have "select_target html img
     (resize_if_needed img_attrs (resize_if_needed img_attrs src ''height'' ''data-original-height'')
        ''width'' ''data-original-width'') = Inl (KeyError ''href'')"
    by (rule select_target_no_href [OF n pn ph])
  then have step: "replace_image lib folder img html fs = (Inl (KeyError ''href''), fs)"
    by (rule replace_image_select_error [OF n s])
  then have loop: "replace_images lib folder (img # imgs) html fs = (Inl (KeyError ''href''), fs)"
    by simp
  have post: "process_posts lib opts (post # posts) fs_start um =
          (Inl (KeyError ''href''), fs, url_map_out (resolve_post lib opts post um))"
    if h: "find_all html ''img'' = img # imgs \<and> bs lib (atom_content post) = html
        \<and> folder = post_folder (resolve_post lib opts post um)
        \<and> mkdir_parents folder fs_start = Inr fs \<and> get_post_tags (atom_category post) = Inr tags"
  proof -
    from h loop have "replace_images_with_downloaded lib (bs lib (atom_content post))
        (post_folder (resolve_post lib opts post um)) fs = (Inl (KeyError ''href''), fs)"
      by (simp add: replace_images_with_downloaded_def)
    moreover from h have "mkdir_parents (post_folder (resolve_post lib opts post um)) fs_start = Inr fs"
      and "get_post_tags (atom_category post) = Inr tags"
      by auto
    ultimately have "process_post lib opts post fs_start um =
        (Inl (KeyError ''href''), fs, url_map_out (resolve_post lib opts post um))"
      by (intro process_post_images_error)
    then show ?thesis by simp
  qed
  have before: "replace_images lib folder (pre @ img # imgs) html_before fs_before = (Inl (KeyError ''href''), fs)"
    if "replace_images lib folder pre html_before fs_before = (Inr html, fs)"
    using that loop by (simp add: replace_images_append)
  have whole: "replace_images_with_downloaded lib html folder fs = (Inl (KeyError ''href''), fs)"
    if "find_all html ''img'' = img # imgs"
    using that loop by (simp add: replace_images_with_downloaded_def)
  show "replace_image lib folder img html fs = (Inl (KeyError ''href''), fs)
   \<and> (replace_images lib folder pre html_before fs_before = (Inr html, fs) \<longrightarrow>
        replace_images lib folder (pre @ img # imgs) html_before fs_before = (Inl (KeyError ''href''), fs))
   \<and> (find_all html ''img'' = img # imgs \<longrightarrow>
        replace_images_with_downloaded lib html folder fs = (Inl (KeyError ''href''), fs))
   \<and> (find_all html ''img'' = img # imgs \<and> bs lib (atom_content post) = html
        \<and> folder = post_folder (resolve_post lib opts post um)
        \<and> mkdir_parents folder fs_start = Inr fs \<and> get_post_tags (atom_category post) = Inr tags \<longrightarrow>
        process_posts lib opts (post # posts) fs_start um =
          (Inl (KeyError ''href''), fs, url_map_out (resolve_post lib opts post um)))"
    using step before whole post by blast
qed

text \<open>
  The document \<open><a name="top"><img src="http://x/a.png"></a>\<close>, and a run over one post
  with this content: its folder is created, and nothing else.
\<close>

theorem anchor_without_href_aborts_witness:
  "replace_images_with_downloaded (demo_library [] empty_soup) anchor_soup (Path ''out'') fs_out
     = (Inl (KeyError ''href''), fs_out)
   \<and> process_posts (demo_library [] anchor_soup) demo_options [draft_post] fs_empty []
     = (Inl (KeyError ''href''),
        \<lparr>dirs = {PurePath [] [''out'', ''draft_posts'', ''2019-03-07-hello-world''], PurePath [] [],
                 PurePath [] [''out''], PurePath [] [''out'', ''draft_posts'']},
         files = Map.empty\<rparr>, [])"
proof -
  let ?F = "PurePath [] [''out'', ''draft_posts'', ''2019-03-07-hello-world'']"
  let ?fs1 = "\<lparr>dirs = {?F, PurePath [] [], PurePath [] [''out''], PurePath [] [''out'', ''draft_posts'']},
         files = Map.empty\<rparr>"
  let ?lib = "demo_library [] anchor_soup"
  have n: "nodes anchor_soup 2 = Some (Tag ''img'' [''src'' \<mapsto> ''http://x/a.png''] (Some 1) [])
     \<and> [''src'' \<mapsto> ''http://x/a.png''] ''src'' = Some ''http://x/a.png''
     \<and> nodes anchor_soup 1 = Some (Tag ''a'' [''name'' \<mapsto> ''top''] (Some 0) [2])
     \<and> [''name'' \<mapsto> ''top''] ''href'' = None"
    by (simp add: anchor_soup_def)
  with anchor_without_href_aborts [where html = anchor_soup and img = 2 and nm = "''img''"
      and img_attrs = "[''src'' \<mapsto> ''http://x/a.png'']" and p = 1 and cs = "[]"
      and src = "''http://x/a.png''" and pattrs = "[''name'' \<mapsto> ''top'']" and pp = "Some 0"
      and pcs = "[2]" and lib = "demo_library [] empty_soup" and folder = "Path ''out''"
      and fs = fs_out and imgs = "[]"]
  have "find_all anchor_soup ''img'' = [2] \<longrightarrow>
        replace_images_with_downloaded (demo_library [] empty_soup) anchor_soup (Path ''out'') fs_out
          = (Inl (KeyError ''href''), fs_out)"
    by blast
  with find_all_anchor have one: "replace_images_with_downloaded (demo_library [] empty_soup) anchor_soup
      (Path ''out'') fs_out = (Inl (KeyError ''href''), fs_out)"
    by blast
  have F: "post_folder (resolve_post ?lib demo_options draft_post []) = ?F"
    and U: "url_map_out (resolve_post ?lib demo_options draft_post []) = []"
    by (simp_all add: resolve_draft_post)
  have "atom_category draft_post = [demo_kind, demo_tag]"
    by (simp add: draft_post_def)
  then have t: "get_post_tags (atom_category draft_post) = Inr [''travel'']"
    by (simp only: get_post_tags_demo)
  have "find_all anchor_soup ''img'' = [2] \<and> bs ?lib (atom_content draft_post) = anchor_soup
        \<and> ?F = post_folder (resolve_post ?lib demo_options draft_post [])
        \<and> mkdir_parents ?F fs_empty = Inr ?fs1 \<and> get_post_tags (atom_category draft_post) = Inr [''travel'']"
  proof (intro conjI)
    show "bs ?lib (atom_content draft_post) = anchor_soup"
      by (simp add: demo_library_def)
    show "mkdir_parents ?F fs_empty = Inr ?fs1"
      by (simp add: mkdir_three)
  qed (simp_all only: find_all_anchor F t)
  with n anchor_without_href_aborts [where html = anchor_soup and img = 2 and nm = "''img''"
      and img_attrs = "[''src'' \<mapsto> ''http://x/a.png'']" and p = 1 and cs = "[]"
      and src = "''http://x/a.png''" and pattrs = "[''name'' \<mapsto> ''top'']" and pp = "Some 0"
      and pcs = "[2]" and lib = ?lib and folder = ?F and fs = ?fs1 and imgs = "[]"
      and post = draft_post and opts = demo_options and um = "[]" and fs_start = fs_empty
      and tags = "[''travel'']" and posts = "[]"]
  have "process_posts ?lib demo_options [draft_post] fs_empty [] =
          (Inl (KeyError ''href''), ?fs1, url_map_out (resolve_post ?lib demo_options draft_post []))"
    by blast
  then have two: "process_posts ?lib demo_options [draft_post] fs_empty [] = (Inl (KeyError ''href''), ?fs1, [])"
    by (simp only: U)
  from one two show ?thesis by blast
qed


end
